theory Spec2Isabelle
  imports
    Main
    "HOL-Library.FSet"
    "HOL-Library.Finite_Map"
    "HOL-Library.List_Lexorder"
    "HOL-Library.Char_ord"
    "HOL-Library.Sublist"
begin

section \<open>Packet-filter rule builder (package iptables)\<close>

text \<open>
  Go strings are immutable byte sequences and are modelled as \<open>string\<close> (a \<open>char list\<close>).
  A \<open>[]string\<close> is a slice: a window on a backing array that the slice value does not
  own. \<open>AppendUniqueRule\<close> keeps the variadic slice it is given, without copying it, so
  a stored rule shares its backing array with the caller, who can still write to it.
  The memory that holds the elements of string slices is therefore explicit: a map from
  cell addresses to strings. A slice is the address of its first cell and its length
  (the capacity is left out: no code of the package appends to or reslices a rule).
  The methods only read this memory; writes to it are the caller's.
\<close>

type_synonym memory = "nat \<Rightarrow> string"

record slice =
  s_ptr :: nat
  s_len :: nat

text \<open>\<open>s[i]\<close>, and the elements \<open>s[0], ..., s[len(s)-1]\<close> that \<open>range s\<close> and \<open>s...\<close> read.\<close>

definition slice_at :: "memory \<Rightarrow> slice \<Rightarrow> nat \<Rightarrow> string" where
  "slice_at mem s i = mem (s_ptr s + i)"

definition slice_elems :: "memory \<Rightarrow> slice \<Rightarrow> string list" where
  "slice_elems mem s = map (slice_at mem s) [0..<s_len s]"

text \<open>
  The struct \<open>IPTablesRule{chain, rule}\<close> has its fields named \<open>r_chain\<close> and \<open>r_rule\<close>
  here, since \<open>chain\<close> is already a constant of HOL.
\<close>

record IPTablesRule =
  r_chain :: string
  r_rule :: slice

record IPTablesRuleSet =
  table :: string
  chains :: "string list"
  rules :: "IPTablesRule list"

record IPTablesHelper =
  protocol :: string
  restoreCommand :: string
  ruleSets :: "IPTablesRuleSet list"

definition newline :: char where
  "newline = CHR 0x0A"

text \<open>\<open>strings.Join(elems, sep)\<close> of the Go standard library.\<close>

fun strings_Join :: "string list \<Rightarrow> string \<Rightarrow> string" where
  "strings_Join [] sep = []"
| "strings_Join [x] sep = x"
| "strings_Join (x # y # ys) sep = x @ sep @ strings_Join (y # ys) sep"

text \<open>\<open>isInternalChain\<close>: four independent \<open>if table == ...\<close> blocks, then \<open>return false\<close>.\<close>

definition isInternalChain :: "string \<Rightarrow> string \<Rightarrow> bool" where
  "isInternalChain tbl chn =
    (if tbl = ''filter'' \<and> (chn = ''INPUT'' \<or> chn = ''OUTPUT'' \<or> chn = ''FORWARD'') then True
     else if tbl = ''nat'' \<and> (chn = ''PREROUTING'' \<or> chn = ''POSTROUTING'' \<or> chn = ''OUTPUT'') then True
     else if tbl = ''mangle'' \<and> (chn = ''PREROUTING'' \<or> chn = ''OUTPUT'' \<or> chn = ''FORWARD''
                                 \<or> chn = ''INPUT'' \<or> chn = ''POSTROUTING'') then True
     else if tbl = ''raw'' \<and> (chn = ''PREROUTING'' \<or> chn = ''OUTPUT'') then True
     else False)"

text \<open>
  \<open>GenerateInputFromRuleSet\<close>: three loops that grow the string \<open>ret\<close>. Each loop is a
  recursive function that threads \<open>ret\<close> as an accumulator. The rule loop reads the
  elements of the stored slice from the memory as it is at the time of the call.
\<close>

fun emitChains :: "string \<Rightarrow> string list \<Rightarrow> string \<Rightarrow> string" where
  "emitChains tbl [] ret = ret"
| "emitChains tbl (chn # cs) ret =
    (let policy = (if isInternalChain tbl chn then ''ACCEPT'' else ''-'')
     in emitChains tbl cs
          (ret @ strings_Join ['':'', chn, '' '' @ policy @ '' [0:0]'' @ [newline]] ''''))"

fun emitRules :: "memory \<Rightarrow> IPTablesRule list \<Rightarrow> string \<Rightarrow> string" where
  "emitRules mem [] ret = ret"
| "emitRules mem (ruleEntry # es) ret =
    (let line = strings_Join ([''-A'', r_chain ruleEntry] @ slice_elems mem (r_rule ruleEntry)) '' ''
     in emitRules mem es ((ret @ line) @ [newline]))"

fun emitRuleSets :: "memory \<Rightarrow> IPTablesRuleSet list \<Rightarrow> string \<Rightarrow> string" where
  "emitRuleSets mem [] ret = ret"
| "emitRuleSets mem (ruleSet # rss) ret =
    (let ret1 = ret @ ''*'' @ table ruleSet @ [newline];
         ret2 = emitChains (table ruleSet) (chains ruleSet) ret1;
         ret3 = emitRules mem (rules ruleSet) ret2
     in emitRuleSets mem rss (ret3 @ ''COMMIT'' @ [newline]))"

definition GenerateInputFromRuleSet :: "memory \<Rightarrow> IPTablesHelper \<Rightarrow> string" where
  "GenerateInputFromRuleSet mem h = emitRuleSets mem (ruleSets h) ''''"

subsection \<open>The serialization format as the specification words it\<close>

text \<open>
  The built-in chains enumerated by the specification, and the block of lines it
  prescribes for one table. These follow the specification's text, not the code, and
  are what the code's output is compared with.
\<close>

definition spec_builtin_chains :: "(string \<times> string) set" where
  "spec_builtin_chains =
    {(''filter'', ''INPUT''), (''filter'', ''OUTPUT''), (''filter'', ''FORWARD''),
     (''nat'', ''PREROUTING''), (''nat'', ''POSTROUTING''), (''nat'', ''OUTPUT''),
     (''mangle'', ''PREROUTING''), (''mangle'', ''OUTPUT''), (''mangle'', ''FORWARD''),
     (''mangle'', ''INPUT''), (''mangle'', ''POSTROUTING''),
     (''raw'', ''PREROUTING''), (''raw'', ''OUTPUT'')}"

definition spec_policy :: "string \<Rightarrow> string \<Rightarrow> string" where
  "spec_policy tbl chn = (if (tbl, chn) \<in> spec_builtin_chains then ''ACCEPT'' else ''-'')"

definition spec_chain_line :: "string \<Rightarrow> string \<Rightarrow> string" where
  "spec_chain_line tbl chn = '':'' @ chn @ '' '' @ spec_policy tbl chn @ '' [0:0]''"

text \<open>The line \<open>-A <chain> <args...>\<close> of a rule with the given chain and arguments.\<close>

definition spec_rule_line :: "string \<Rightarrow> string list \<Rightarrow> string" where
  "spec_rule_line chn args = ''-A '' @ chn @ concat (map (\<lambda>a. '' '' @ a) args)"

definition spec_table_block :: "memory \<Rightarrow> IPTablesRuleSet \<Rightarrow> string list" where
  "spec_table_block mem rs =
     [''*'' @ table rs]
     @ map (spec_chain_line (table rs)) (chains rs)
     @ map (\<lambda>e. spec_rule_line (r_chain e) (slice_elems mem (r_rule e))) (rules rs)
     @ [''COMMIT'']"

definition unlines :: "string list \<Rightarrow> string" where
  "unlines ls = concat (map (\<lambda>l. l @ [newline]) ls)"

subsection \<open>The lines of a text\<close>

text \<open>
  The lines of a text as the restore tool reads them: the text is cut at every newline
  character; an unterminated rest counts as a last line.
\<close>

fun splitLines :: "string \<Rightarrow> string \<Rightarrow> string list" where
  "splitLines cur [] = (if cur = [] then [] else [cur])"
| "splitLines cur (c # cs) =
     (if c = newline then cur # splitLines [] cs else splitLines (cur @ [c]) cs)"

definition text_lines :: "string \<Rightarrow> string list" where
  "text_lines t = splitLines [] t"

text \<open>How often a line occurs among the lines of a text.\<close>

definition occurrences :: "string \<Rightarrow> string \<Rightarrow> nat" where
  "occurrences t l = count_list (text_lines t) l"

text \<open>No table name, chain name or rule argument of the accumulator contains a newline.\<close>

definition no_newline :: "string \<Rightarrow> bool" where
  "no_newline s \<longleftrightarrow> newline \<notin> set s"

definition ruleSet_newline_free :: "memory \<Rightarrow> IPTablesRuleSet \<Rightarrow> bool" where
  "ruleSet_newline_free mem rs \<longleftrightarrow>
     no_newline (table rs) \<and> list_all no_newline (chains rs)
     \<and> list_all (\<lambda>e. no_newline (r_chain e) \<and> list_all no_newline (slice_elems mem (r_rule e)))
          (rules rs)"

definition newline_free :: "memory \<Rightarrow> IPTablesHelper \<Rightarrow> bool" where
  "newline_free mem h \<longleftrightarrow> list_all (ruleSet_newline_free mem) (ruleSets h)"

subsection \<open>Serialization lemmas\<close>

lemma isInternalChain_iff: "isInternalChain tbl chn \<longleftrightarrow> (tbl, chn) \<in> spec_builtin_chains"
  unfolding isInternalChain_def spec_builtin_chains_def by auto

lemma strings_Join_space: "strings_Join (x # xs) '' '' = x @ concat (map (\<lambda>a. '' '' @ a) xs)"
  by (induction xs arbitrary: x) simp_all

lemma rule_line_eq: "strings_Join (''-A'' # chn # args) '' '' = spec_rule_line chn args"
  by (simp add: spec_rule_line_def strings_Join_space del: strings_Join.simps)

lemma emitChains_eq:
  "emitChains tbl cs ret = ret @ unlines (map (spec_chain_line tbl) cs)"
  by (induction cs arbitrary: ret)
     (simp_all add: unlines_def spec_chain_line_def spec_policy_def isInternalChain_iff)

lemma emitRules_eq:
  "emitRules mem es ret =
     ret @ unlines (map (\<lambda>e. spec_rule_line (r_chain e) (slice_elems mem (r_rule e))) es)"
proof (induction es arbitrary: ret)
  case Nil
  show ?case by (simp add: unlines_def)
next
  case (Cons e es)
  then show ?case by (simp add: unlines_def Let_def rule_line_eq del: strings_Join.simps)
qed

lemma unlines_append: "unlines (xs @ ys) = unlines xs @ unlines ys"
  by (simp add: unlines_def)

lemma emitRuleSets_eq:
  "emitRuleSets mem rss ret = ret @ unlines (concat (map (spec_table_block mem) rss))"
proof (induction rss arbitrary: ret)
  case Nil
  show ?case by (simp add: unlines_def)
next
  case (Cons rs rss)
  have "unlines (spec_table_block mem rs) =
          ''*'' @ table rs @ [newline]
          @ unlines (map (spec_chain_line (table rs)) (chains rs))
          @ unlines (map (\<lambda>e. spec_rule_line (r_chain e) (slice_elems mem (r_rule e))) (rules rs))
          @ ''COMMIT'' @ [newline]"
    by (simp add: spec_table_block_def unlines_def)
  with Cons show ?case
    by (simp add: Let_def emitChains_eq emitRules_eq unlines_append)
qed

lemma GenerateInputFromRuleSet_eq:
  "GenerateInputFromRuleSet mem h = unlines (concat (map (spec_table_block mem) (ruleSets h)))"
  by (simp add: GenerateInputFromRuleSet_def emitRuleSets_eq)

lemma count_COMMIT_block: "count_list (spec_table_block mem rs) ''COMMIT'' = 1"
proof -
  have c: "count_list (map (spec_chain_line tbl) cs) ''COMMIT'' = 0" for tbl cs
    by (induction cs) (simp_all add: spec_chain_line_def)
  have r: "count_list (map (\<lambda>e. spec_rule_line (r_chain e) (slice_elems mem (r_rule e))) es)
             ''COMMIT'' = 0" for es
    by (induction es) (simp_all add: spec_rule_line_def)
  show ?thesis by (simp add: spec_table_block_def c r)
qed

lemma count_COMMIT_lines:
  "count_list (concat (map (spec_table_block mem) rss)) ''COMMIT'' = length rss"
  by (induction rss) (simp_all add: count_COMMIT_block)

lemma splitLines_line:
  "no_newline l \<Longrightarrow> splitLines cur (l @ newline # rest) = (cur @ l) # splitLines [] rest"
  by (induction l arbitrary: cur) (auto simp: no_newline_def)

lemma text_lines_unlines: "list_all no_newline ls \<Longrightarrow> text_lines (unlines ls) = ls"
proof -
  have "list_all no_newline ls \<Longrightarrow> splitLines [] (unlines ls) = ls"
  proof (induction ls)
    case Nil
    show ?case by (simp add: unlines_def)
  next
    case (Cons l ls)
    then have "splitLines [] (l @ newline # unlines ls) = ([] @ l) # splitLines [] (unlines ls)"
      by (intro splitLines_line) simp
    with Cons show ?case by (simp add: unlines_def)
  qed
  then show "list_all no_newline ls \<Longrightarrow> text_lines (unlines ls) = ls"
    by (simp add: text_lines_def)
qed

lemma no_newline_rule_line:
  "no_newline chn \<Longrightarrow> list_all no_newline args \<Longrightarrow> no_newline (spec_rule_line chn args)"
  by (auto simp: spec_rule_line_def no_newline_def newline_def list_all_iff)

lemma no_newline_chain_line:
  "no_newline chn \<Longrightarrow> no_newline (spec_chain_line tbl chn)"
  by (auto simp: spec_chain_line_def spec_policy_def no_newline_def newline_def)

lemma no_newline_block:
  "ruleSet_newline_free mem rs \<Longrightarrow> list_all no_newline (spec_table_block mem rs)"
proof -
  assume a: "ruleSet_newline_free mem rs"
  have 1: "no_newline (''*'' @ table rs)" "no_newline ''COMMIT''"
    using a by (auto simp: ruleSet_newline_free_def no_newline_def newline_def)
  have 2: "list_all no_newline (map (spec_chain_line (table rs)) (chains rs))"
    using a by (auto simp: ruleSet_newline_free_def list_all_iff no_newline_chain_line)
  have 3: "list_all no_newline
             (map (\<lambda>e. spec_rule_line (r_chain e) (slice_elems mem (r_rule e))) (rules rs))"
    using a by (auto simp: ruleSet_newline_free_def list_all_iff intro!: no_newline_rule_line)
  from 1 2 3 show ?thesis unfolding spec_table_block_def by simp
qed

lemma no_newline_blocks:
  "list_all (ruleSet_newline_free mem) rss \<Longrightarrow>
   list_all no_newline (concat (map (spec_table_block mem) rss))"
  by (induction rss) (simp_all add: no_newline_block)

lemma text_lines_GenerateInputFromRuleSet:
  "newline_free mem h \<Longrightarrow>
   text_lines (GenerateInputFromRuleSet mem h) = concat (map (spec_table_block mem) (ruleSets h))"
  by (simp add: GenerateInputFromRuleSet_eq newline_free_def text_lines_unlines no_newline_blocks)

subsection \<open>C2: the serialized ruleset\<close>

text \<open>
  A memory for the examples: the cells \<open>10 .. 16\<close> hold arguments, every other cell the
  empty string.
\<close>

definition example_memory :: memory where
  "example_memory =
     (\<lambda>a. '''')(10 := ''-j ACCEPT'', 11 := ''-j'', 12 := ''ACCEPT'',
                13 := ''-j'', 14 := ''FABEDGE-FORWARD'',
                15 := ''-j'', 16 := ''x'' @ [newline] @ ''COMMIT'')"

definition example_ruleset :: IPTablesHelper where
  "example_ruleset =
     \<lparr>protocol = ''ipv4'', restoreCommand = ''iptables-restore'',
      ruleSets =
        [\<lparr>table = ''filter'',
          chains = [''FORWARD'', ''FABEDGE-FORWARD''],
          rules = [\<lparr>r_chain = ''FORWARD'', r_rule = \<lparr>s_ptr = 13, s_len = 2\<rparr>\<rparr>]\<rparr>,
         \<lparr>table = ''nat'',
          chains = [''FABEDGE-POSTROUTING'', ''POSTROUTING'', ''FORWARD''],
          rules = []\<rparr>]\<rparr>"

text \<open>
  The accumulator after \<open>AppendUniqueRule("filter", "FORWARD", args...)\<close> on a fresh
  helper, where \<open>args\<close> is the slice of the cells 15 and 16: its second argument contains
  a newline.
\<close>

definition example_newline_rule :: IPTablesHelper where
  "example_newline_rule =
     \<lparr>protocol = ''ipv4'', restoreCommand = ''iptables-restore'',
      ruleSets =
        [\<lparr>table = ''filter'', chains = [''FORWARD''],
          rules = [\<lparr>r_chain = ''FORWARD'', r_rule = \<lparr>s_ptr = 15, s_len = 2\<rparr>\<rparr>]\<rparr>]\<rparr>"

lemma slice_elems_2:
  "slice_elems mem \<lparr>s_ptr = p, s_len = 2\<rparr> = [mem p, mem (Suc p)]"
  "slice_elems mem \<lparr>s_ptr = p, s_len = 1\<rparr> = [mem p]"
  "slice_elems mem \<lparr>s_ptr = p, s_len = Suc 0\<rparr> = [mem p]"
  by (simp_all add: slice_elems_def slice_at_def upt_rec)

text \<open>
  Claim C2 as stated fails for a rule argument that contains a newline: the accumulator
  has one table, and the text generated from it has two \<open>COMMIT\<close> lines.
\<close>

theorem newline_argument_two_COMMIT_lines:
  "length (ruleSets example_newline_rule) = 1
   \<and> text_lines (GenerateInputFromRuleSet example_memory example_newline_rule) =
       [''*filter'', '':FORWARD ACCEPT [0:0]'', ''-A FORWARD -j x'', ''COMMIT'', ''COMMIT'']
   \<and> occurrences (GenerateInputFromRuleSet example_memory example_newline_rule) ''COMMIT'' = 2"
  by (simp add: occurrences_def text_lines_def GenerateInputFromRuleSet_def example_newline_rule_def
      example_memory_def slice_elems_2 isInternalChain_def newline_def)

text \<open>
  Claim C2, amended. For every accumulated ruleset, the text produced by
  \<open>GenerateInputFromRuleSet\<close> is the concatenation, over the registered tables in
  order, of the block the specification prescribes, every element ended by a newline:
  \<open>*<table>\<close>, then \<open>:<chain> <policy> [0:0]\<close> per registered chain, then
  \<open>-A <chain> <args...>\<close> per registered rule, then \<open>COMMIT\<close>; the policy is \<open>ACCEPT\<close>
  exactly for the (table, chain) pairs of the enumerated built-in set and \<open>-\<close> for every
  other pair. When no table name, chain name or rule argument contains a newline, the
  lines of the text are exactly these, and exactly one line per table is \<open>COMMIT\<close>.
\<close>

theorem GenerateInputFromRuleSet_format:
  "GenerateInputFromRuleSet mem h = unlines (concat (map (spec_table_block mem) (ruleSets h)))
   \<and> (isInternalChain tbl chn \<longleftrightarrow> (tbl, chn) \<in> spec_builtin_chains)
   \<and> emitChains tbl [chn] '''' =
       '':'' @ chn @ '' '' @ (if (tbl, chn) \<in> spec_builtin_chains then ''ACCEPT'' else ''-'')
         @ '' [0:0]'' @ [newline]
   \<and> (newline_free mem h \<longrightarrow>
         text_lines (GenerateInputFromRuleSet mem h)
           = concat (map (spec_table_block mem) (ruleSets h))
         \<and> occurrences (GenerateInputFromRuleSet mem h) ''COMMIT'' = length (ruleSets h))"
proof -
  have 1: "emitChains tbl [chn] '''' =
       '':'' @ chn @ '' '' @ (if (tbl, chn) \<in> spec_builtin_chains then ''ACCEPT'' else ''-'')
         @ '' [0:0]'' @ [newline]"
    by (simp add: isInternalChain_iff)
  have 2: "text_lines (GenerateInputFromRuleSet mem h)
           = concat (map (spec_table_block mem) (ruleSets h))
         \<and> occurrences (GenerateInputFromRuleSet mem h) ''COMMIT'' = length (ruleSets h)"
    if "newline_free mem h"
    using that
    by (simp add: occurrences_def text_lines_GenerateInputFromRuleSet count_COMMIT_lines)
  from 1 2 GenerateInputFromRuleSet_eq [of mem h] isInternalChain_iff [of tbl chn]
  show ?thesis by blast
qed

theorem GenerateInputFromRuleSet_format_witness:
  "newline_free example_memory example_ruleset
   \<and> text_lines (GenerateInputFromRuleSet example_memory example_ruleset) =
       [''*filter'', '':FORWARD ACCEPT [0:0]'', '':FABEDGE-FORWARD - [0:0]'',
        ''-A FORWARD -j FABEDGE-FORWARD'', ''COMMIT'',
        ''*nat'', '':FABEDGE-POSTROUTING - [0:0]'', '':POSTROUTING ACCEPT [0:0]'',
        '':FORWARD - [0:0]'', ''COMMIT'']
   \<and> occurrences (GenerateInputFromRuleSet example_memory example_ruleset) ''COMMIT'' = 2
   \<and> isInternalChain ''nat'' ''POSTROUTING''"
proof -
  have n: "newline_free example_memory example_ruleset"
    by (simp add: newline_free_def ruleSet_newline_free_def no_newline_def newline_def
        example_ruleset_def example_memory_def slice_elems_2)
  have b: "concat (map (spec_table_block example_memory) (ruleSets example_ruleset)) =
       [''*filter'', '':FORWARD ACCEPT [0:0]'', '':FABEDGE-FORWARD - [0:0]'',
        ''-A FORWARD -j FABEDGE-FORWARD'', ''COMMIT'',
        ''*nat'', '':FABEDGE-POSTROUTING - [0:0]'', '':POSTROUTING ACCEPT [0:0]'',
        '':FORWARD - [0:0]'', ''COMMIT'']"
    by (simp add: example_ruleset_def example_memory_def spec_table_block_def spec_chain_line_def
        spec_policy_def spec_rule_line_def spec_builtin_chains_def slice_elems_2)
  note c = GenerateInputFromRuleSet_format [of example_memory example_ruleset "''nat''" "''POSTROUTING''"]
  have i: "isInternalChain ''nat'' ''POSTROUTING''"
    using c [THEN conjunct2, THEN conjunct1] by (simp add: spec_builtin_chains_def)
  note d = c [THEN conjunct2, THEN conjunct2, THEN conjunct2, rule_format, OF n]
  have t: "text_lines (GenerateInputFromRuleSet example_memory example_ruleset) =
       [''*filter'', '':FORWARD ACCEPT [0:0]'', '':FABEDGE-FORWARD - [0:0]'',
        ''-A FORWARD -j FABEDGE-FORWARD'', ''COMMIT'',
        ''*nat'', '':FABEDGE-POSTROUTING - [0:0]'', '':POSTROUTING ACCEPT [0:0]'',
        '':FORWARD - [0:0]'', ''COMMIT'']"
    using d [THEN conjunct1] unfolding b .
  have o: "occurrences (GenerateInputFromRuleSet example_memory example_ruleset) ''COMMIT'' = 2"
    using d [THEN conjunct2] by (simp add: example_ruleset_def)
  show ?thesis by (intro conjI) (rule n, rule t, rule o, rule i)
qed

section \<open>The in-memory accumulator\<close>

text \<open>
  The accumulator is mutated in place by the Go methods; the model passes the helper in
  and returns the updated one. A slice index outside \<open>0 .. len-1\<close> is a run-time panic
  in Go: every method that indexes \<open>h.ruleSets\<close> returns an option, \<open>None\<close> standing for
  the panic. The search functions return \<open>-1\<close> for a miss, as the source does.
\<close>

definition doCreateIPTablesHelper :: "string \<Rightarrow> IPTablesHelper" where
  "doCreateIPTablesHelper proto =
     \<lparr>protocol = proto,
      restoreCommand = (if proto = ''ipv4'' then ''iptables-restore''
                        else if proto = ''ipv6'' then ''ip6tables-restore'' else ''''),
      ruleSets = []\<rparr>"

definition NewIPTablesHelper :: IPTablesHelper where
  "NewIPTablesHelper = doCreateIPTablesHelper ''ipv4''"

definition NewIP6TablesHelper :: IPTablesHelper where
  "NewIP6TablesHelper = doCreateIPTablesHelper ''ipv6''"

definition index_at :: "'a list \<Rightarrow> int \<Rightarrow> 'a option" where
  "index_at xs i = (if 0 \<le> i \<and> i < int (length xs) then Some (xs ! nat i) else None)"

fun findTableFrom :: "IPTablesRuleSet list \<Rightarrow> string \<Rightarrow> int \<Rightarrow> int" where
  "findTableFrom [] tbl i = - 1"
| "findTableFrom (ruleSet # rss) tbl i =
     (if table ruleSet = tbl then i else findTableFrom rss tbl (i + 1))"

definition findTable :: "IPTablesHelper \<Rightarrow> string \<Rightarrow> int" where
  "findTable h tbl = findTableFrom (ruleSets h) tbl 0"

fun findChainFrom :: "string list \<Rightarrow> string \<Rightarrow> int \<Rightarrow> int" where
  "findChainFrom [] chn i = - 1"
| "findChainFrom (elem # es) chn i = (if chn = elem then i else findChainFrom es chn (i + 1))"

definition findChain :: "IPTablesHelper \<Rightarrow> int \<Rightarrow> string \<Rightarrow> int option" where
  "findChain h tableIndex chn =
     (case index_at (ruleSets h) tableIndex of
        None \<Rightarrow> None
      | Some ruleSet \<Rightarrow> Some (findChainFrom (chains ruleSet) chn 0))"

definition CreateChain :: "IPTablesHelper \<Rightarrow> string \<Rightarrow> string \<Rightarrow> IPTablesHelper option" where
  "CreateChain h tbl chn =
     (let tableIndex = findTable h tbl;
          h1 = (if tableIndex = - 1
                then h\<lparr>ruleSets := ruleSets h @ [\<lparr>table = tbl, chains = [], rules = []\<rparr>]\<rparr>
                else h);
          tableIndex1 = (if tableIndex = - 1 then int (length (ruleSets h1)) - 1 else tableIndex)
      in case findChain h1 tableIndex1 chn of
           None \<Rightarrow> None
         | Some chainIndex \<Rightarrow>
             if chainIndex = - 1
             then (case index_at (ruleSets h1) tableIndex1 of
                     None \<Rightarrow> None
                   | Some ruleSet \<Rightarrow>
                       Some (h1\<lparr>ruleSets := (ruleSets h1)
                                 [nat tableIndex1 := ruleSet\<lparr>chains := chains ruleSet @ [chn]\<rparr>]\<rparr>))
             else Some h1)"

text \<open>
  \<open>rulesEqual\<close> compares the lengths of the two slices and then walks the elements of
  \<open>one\<close>, reading \<open>other[i]\<close>; the length test guards that index, which is therefore
  always in range inside the loop.
\<close>

fun rulesEqualFrom :: "string list \<Rightarrow> memory \<Rightarrow> slice \<Rightarrow> nat \<Rightarrow> bool" where
  "rulesEqualFrom [] mem other i = True"
| "rulesEqualFrom (elem # es) mem other i =
     (if elem \<noteq> slice_at mem other i then False else rulesEqualFrom es mem other (i + 1))"

definition rulesEqual :: "memory \<Rightarrow> slice \<Rightarrow> slice \<Rightarrow> bool" where
  "rulesEqual mem one other =
     (if s_len one \<noteq> s_len other then False
      else rulesEqualFrom (slice_elems mem one) mem other 0)"

text \<open>The search loop of \<open>AppendUniqueRule\<close>; \<open>True\<close> is its early return.\<close>

fun ruleExists :: "memory \<Rightarrow> IPTablesRule list \<Rightarrow> string \<Rightarrow> slice \<Rightarrow> bool" where
  "ruleExists mem [] chn rl = False"
| "ruleExists mem (elem # es) chn rl =
     (if r_chain elem = chn \<and> rulesEqual mem (r_rule elem) rl then True
      else ruleExists mem es chn rl)"

text \<open>
  \<open>AppendUniqueRule\<close>: the variadic parameter \<open>rule\<close> is a slice, and the rule entry that
  is appended holds this very slice: the entry and the caller share the cells. The
  method reads the memory and does not write to it. A call that writes the arguments
  out (\<open>AppendUniqueRule(t, c, "-j", "ACCEPT")\<close>) passes a slice that was allocated for
  the call; it is a slice in memory like any other.
\<close>

definition AppendUniqueRule ::
  "memory \<Rightarrow> IPTablesHelper \<Rightarrow> string \<Rightarrow> string \<Rightarrow> slice \<Rightarrow> IPTablesHelper option" where
  "AppendUniqueRule mem h tbl chn rl =
     (case (if findTable h tbl = - 1
            then (case CreateChain h tbl chn of
                    None \<Rightarrow> None
                  | Some h' \<Rightarrow> Some (h', findTable h' tbl))
            else Some (h, findTable h tbl)) of
        None \<Rightarrow> None
      | Some (h1, tableIndex) \<Rightarrow>
          (case findChain h1 tableIndex chn of
             None \<Rightarrow> None
           | Some chainIndex \<Rightarrow>
               (case (if chainIndex = - 1
                      then (case CreateChain h1 tbl chn of
                              None \<Rightarrow> None
                            | Some h' \<Rightarrow>
                                (case findChain h' tableIndex chn of
                                   None \<Rightarrow> None
                                 | Some chainIndex' \<Rightarrow> Some h'))
                      else Some h1) of
                  None \<Rightarrow> None
                | Some h2 \<Rightarrow>
                    (case index_at (ruleSets h2) tableIndex of
                       None \<Rightarrow> None
                     | Some ruleSet \<Rightarrow>
                         if ruleExists mem (rules ruleSet) chn rl then Some h2
                         else Some (h2\<lparr>ruleSets := (ruleSets h2)
                                [nat tableIndex := ruleSet\<lparr>rules := rules ruleSet
                                     @ [\<lparr>r_chain = chn, r_rule = rl\<rparr>]\<rparr>]\<rparr>)))))"

definition ClearAllRules :: "IPTablesHelper \<Rightarrow> IPTablesHelper" where
  "ClearAllRules h = h\<lparr>ruleSets := []\<rparr>"


text \<open>
  The states of memory and accumulator a program can reach. The field \<open>ruleSets\<close> is
  private, so the accumulator changes only through the methods; the memory changes
  through the caller's writes, which may hit the cells of a slice the accumulator has
  stored.
\<close>

inductive reachable :: "memory \<Rightarrow> IPTablesHelper \<Rightarrow> bool" where
  fresh: "reachable mem (doCreateIPTablesHelper proto)"
| caller_write: "reachable mem h \<Longrightarrow> reachable (mem(a := v)) h"
| create: "reachable mem h \<Longrightarrow> CreateChain h tbl chn = Some h' \<Longrightarrow> reachable mem h'"
| append: "reachable mem h \<Longrightarrow> AppendUniqueRule mem h tbl chn rl = Some h' \<Longrightarrow> reachable mem h'"
| clear: "reachable mem h \<Longrightarrow> reachable mem (ClearAllRules h)"



subsection \<open>What the accumulator methods compute\<close>





lemma findChainFrom_miss: "chn \<notin> set cs \<Longrightarrow> findChainFrom cs chn i = - 1"
  by (induction cs arbitrary: i) auto

lemma findChainFrom_hit:
  "chn \<notin> set pre \<Longrightarrow> findChainFrom (pre @ chn # post) chn i = i + int (length pre)"
  by (induction pre arbitrary: i) auto

lemma findTableFrom_miss: "tbl \<notin> table ` set rss \<Longrightarrow> findTableFrom rss tbl i = - 1"
  by (induction rss arbitrary: i) auto

lemma findTableFrom_hit:
  "tbl \<notin> table ` set pre \<Longrightarrow> table rs = tbl \<Longrightarrow>
   findTableFrom (pre @ rs # post) tbl i = i + int (length pre)"
  by (induction pre arbitrary: i) auto

lemma findChainFrom_neg: "0 \<le> i \<Longrightarrow> findChainFrom cs chn i = - 1 \<longleftrightarrow> chn \<notin> set cs"
proof
  assume "0 \<le> i" "findChainFrom cs chn i = - 1"
  show "chn \<notin> set cs"
  proof
    assume "chn \<in> set cs"
    then obtain pre post where "cs = pre @ chn # post" "chn \<notin> set pre"
      by (meson split_list_first)
    with \<open>0 \<le> i\<close> \<open>findChainFrom cs chn i = - 1\<close> show False
      by (simp add: findChainFrom_hit)
  qed
qed (simp add: findChainFrom_miss)

text \<open>
  The effect of the two methods on the rule set of the addressed table, written without
  indices; the lemmas below show that the index-based code computes exactly this.
\<close>

definition addChain :: "string \<Rightarrow> IPTablesRuleSet \<Rightarrow> IPTablesRuleSet" where
  "addChain chn rs = (if chn \<in> set (chains rs) then rs else rs\<lparr>chains := chains rs @ [chn]\<rparr>)"


lemma CreateChain_miss:
  "tbl \<notin> table ` set (ruleSets h) \<Longrightarrow>
   CreateChain h tbl chn =
     Some (h\<lparr>ruleSets := ruleSets h @ [\<lparr>table = tbl, chains = [chn], rules = []\<rparr>]\<rparr>)"
  by (simp add: CreateChain_def findTable_def findTableFrom_miss Let_def findChain_def index_at_def
      nth_append)

lemma CreateChain_hit:
  assumes "ruleSets h = pre @ rs # post" "tbl \<notin> table ` set pre" "table rs = tbl"
  shows "CreateChain h tbl chn = Some (h\<lparr>ruleSets := pre @ addChain chn rs # post\<rparr>)"
proof -
  have ft: "findTable h tbl = int (length pre)"
    using assms by (simp add: findTable_def findTableFrom_hit)
  show ?thesis
  proof (cases "chn \<in> set (chains rs)")
    case True
    then have "findChainFrom (chains rs) chn 0 \<noteq> - 1" by (simp add: findChainFrom_neg)
    with True show ?thesis
      using assms(1) by (simp add: CreateChain_def ft Let_def findChain_def index_at_def addChain_def)
  next
    case False
    then have "findChainFrom (chains rs) chn 0 = - 1" by (simp add: findChainFrom_miss)
    with False show ?thesis
      using assms(1) by (simp add: CreateChain_def ft Let_def findChain_def index_at_def addChain_def)
  qed
qed








lemma table_cases:
  obtains (miss) "tbl \<notin> table ` set (ruleSets h)"
  | (hit) pre rs post where "ruleSets h = pre @ rs # post" "tbl \<notin> table ` set pre" "table rs = tbl"
proof (cases "\<exists>rs \<in> set (ruleSets h). table rs = tbl")
  case True
  from split_list_first_prop [OF this]
  obtain pre rs post where "ruleSets h = pre @ rs # post" "table rs = tbl"
      "\<forall>y \<in> set pre. table y \<noteq> tbl"
    by blast
  moreover from this have "tbl \<notin> table ` set pre" by auto
  ultimately show ?thesis using hit [of pre rs post] by blast
next
  case False
  then show ?thesis using miss by auto
qed


lemma CreateChain_total: "\<exists>h'. CreateChain h tbl chn = Some h'"
  by (cases rule: table_cases [of tbl h]) (simp_all add: CreateChain_miss CreateChain_hit)




subsection \<open>The lines of a rendered table\<close>












subsection \<open>C3: idempotence of AppendUniqueRule\<close>

text \<open>
  Accumulators for the examples, over \<open>example_memory\<close>: the rule \<open>-j ACCEPT\<close> of the
  chain \<open>FABEDGE-FORWARD\<close> stored as the two arguments of the cells 11 and 12; the same
  line stored as the one argument of the cell 10; and both.
\<close>

definition example_forward :: IPTablesHelper where
  "example_forward =
     \<lparr>protocol = ''ipv4'', restoreCommand = ''iptables-restore'',
      ruleSets = [\<lparr>table = ''filter'', chains = [''FABEDGE-FORWARD''],
                   rules = [\<lparr>r_chain = ''FABEDGE-FORWARD'',
                             r_rule = \<lparr>s_ptr = 11, s_len = 2\<rparr>\<rparr>]\<rparr>]\<rparr>"

definition example_joined :: IPTablesHelper where
  "example_joined =
     \<lparr>protocol = ''ipv4'', restoreCommand = ''iptables-restore'',
      ruleSets = [\<lparr>table = ''filter'', chains = [''FABEDGE-FORWARD''],
                   rules = [\<lparr>r_chain = ''FABEDGE-FORWARD'',
                             r_rule = \<lparr>s_ptr = 10, s_len = 1\<rparr>\<rparr>]\<rparr>]\<rparr>"

definition example_both :: IPTablesHelper where
  "example_both =
     \<lparr>protocol = ''ipv4'', restoreCommand = ''iptables-restore'',
      ruleSets = [\<lparr>table = ''filter'', chains = [''FABEDGE-FORWARD''],
                   rules = [\<lparr>r_chain = ''FABEDGE-FORWARD'',
                             r_rule = \<lparr>s_ptr = 10, s_len = 1\<rparr>\<rparr>,
                            \<lparr>r_chain = ''FABEDGE-FORWARD'',
                             r_rule = \<lparr>s_ptr = 11, s_len = 2\<rparr>\<rparr>]\<rparr>]\<rparr>"

lemmas AppendUniqueRule_unfold =
  AppendUniqueRule_def CreateChain_def findTable_def findChain_def index_at_def Let_def
  rulesEqual_def slice_elems_2 slice_at_def NewIPTablesHelper_def doCreateIPTablesHelper_def

lemma example_forward_appended:
  "AppendUniqueRule example_memory NewIPTablesHelper ''filter'' ''FABEDGE-FORWARD''
     \<lparr>s_ptr = 11, s_len = 2\<rparr> = Some example_forward"
  by (simp add: AppendUniqueRule_unfold example_forward_def)

lemma example_joined_appended:
  "AppendUniqueRule example_memory NewIPTablesHelper ''filter'' ''FABEDGE-FORWARD''
     \<lparr>s_ptr = 10, s_len = 1\<rparr> = Some example_joined"
  by (simp add: AppendUniqueRule_unfold example_joined_def)

lemma example_both_appended:
  "AppendUniqueRule example_memory example_joined ''filter'' ''FABEDGE-FORWARD''
     \<lparr>s_ptr = 11, s_len = 2\<rparr> = Some example_both"
  by (simp add: AppendUniqueRule_unfold example_joined_def example_both_def example_memory_def)

lemma example_both_again:
  "AppendUniqueRule example_memory example_both ''filter'' ''FABEDGE-FORWARD''
     \<lparr>s_ptr = 11, s_len = 2\<rparr> = Some example_both"
  by (simp add: AppendUniqueRule_unfold example_both_def example_memory_def)

lemma example_newline_rule_appended:
  "AppendUniqueRule example_memory NewIPTablesHelper ''filter'' ''FORWARD''
     \<lparr>s_ptr = 15, s_len = 2\<rparr> = Some example_newline_rule"
  by (simp add: AppendUniqueRule_unfold example_newline_rule_def)

lemma example_reachable:
  "reachable example_memory example_forward"
  "reachable example_memory example_both"
  "reachable example_memory example_newline_rule"
proof -
  have f: "reachable example_memory NewIPTablesHelper"
    unfolding NewIPTablesHelper_def by (rule reachable.fresh)
  show "reachable example_memory example_forward"
    by (rule reachable.append [OF f example_forward_appended])
  show "reachable example_memory example_both"
    by (rule reachable.append [OF reachable.append [OF f example_joined_appended]
          example_both_appended])
  show "reachable example_memory example_newline_rule"
    by (rule reachable.append [OF f example_newline_rule_appended])
qed

text \<open>
  The stored rule is the caller's slice: after the caller overwrites the cell 12, the
  text generated from the unchanged accumulator \<open>example_forward\<close> shows another rule.
\<close>

lemma caller_write_changes_stored_rule:
  "text_lines (GenerateInputFromRuleSet example_memory example_forward) =
     [''*filter'', '':FABEDGE-FORWARD - [0:0]'', ''-A FABEDGE-FORWARD -j ACCEPT'', ''COMMIT'']"
  "text_lines (GenerateInputFromRuleSet (example_memory(12 := ''DROP'')) example_forward) =
     [''*filter'', '':FABEDGE-FORWARD - [0:0]'', ''-A FABEDGE-FORWARD -j DROP'', ''COMMIT'']"
  by (simp_all add: text_lines_def GenerateInputFromRuleSet_def example_forward_def
      example_memory_def slice_elems_2 isInternalChain_def newline_def)




section \<open>Replacing the live tables\<close>

text \<open>
  \<open>exec.Command(...).Run()\<close> is the one effect of this package. The host is a parameter:
  a function from the invocation (command name, arguments, standard input) to what the
  process left behind. \<open>Run\<close> returns \<open>nil\<close> when the tool exits with status zero; a
  non-zero exit is an \<open>*exec.ExitError\<close>, whose message is the exit state of the process
  (such as \<open>exit status 1\<close>); any other error means the tool did not run to completion
  (it could not be started, or its input or output failed).
\<close>

record Invocation =
  command :: string
  arguments :: "string list"
  stdin :: string

datatype run_error = ExitError string | OtherRunError string

record Completed =
  stdout :: string
  stderr :: string
  run_err :: "run_error option"

text \<open>\<open>err.Error()\<close> of the error \<open>Run\<close> returned.\<close>

fun Error_text :: "run_error \<Rightarrow> string" where
  "Error_text (ExitError exit_state) = exit_state"
| "Error_text (OtherRunError msg) = msg"

text \<open>
  The error \<open>fmt.Errorf\<close> builds: its message, and the error it wraps through \<open>%w\<close>.
\<close>

record wrapped_error =
  message :: string
  wraps :: run_error

text \<open>
  Both functions return the invocations they made next to their result, so that what
  the tool was called with is part of what is proved. \<open>ReplaceRules\<close> serializes the
  accumulator over the memory as it is when the method is called.
\<close>

definition runRestoreCommand ::
  "(Invocation \<Rightarrow> Completed) \<Rightarrow> IPTablesHelper \<Rightarrow> string list \<Rightarrow> string
     \<Rightarrow> Invocation list \<times> (string \<times> string \<times> run_error option)" where
  "runRestoreCommand host h args input =
     (let args1 = args @ [''--wait''];
          cmd = \<lparr>command = restoreCommand h, arguments = args1, stdin = input\<rparr>;
          done = host cmd
      in case run_err done of
           Some err \<Rightarrow> ([cmd], (stdout done, stderr done, Some err))
         | None \<Rightarrow> ([cmd], (stdout done, stderr done, None)))"

definition ReplaceRules ::
  "(Invocation \<Rightarrow> Completed) \<Rightarrow> memory \<Rightarrow> IPTablesHelper
     \<Rightarrow> Invocation list \<times> wrapped_error option" where
  "ReplaceRules host mem h =
     (let rules_text = GenerateInputFromRuleSet mem h
      in case runRestoreCommand host h [] rules_text of
           (calls, (out, errout, Some err)) \<Rightarrow>
             (calls,
              Some \<lparr>message = ''iptables-helper: fail to replace rules. stdout = '' @ out
                               @ ''; stderr = '' @ errout @ ''; error = '' @ Error_text err,
                    wraps = err\<rparr>)
         | (calls, (out, errout, None)) \<Rightarrow> (calls, None))"

text \<open>The one invocation \<open>ReplaceRules\<close> is expected to make.\<close>

definition restore_call :: "memory \<Rightarrow> IPTablesHelper \<Rightarrow> Invocation" where
  "restore_call mem h =
     \<lparr>command = restoreCommand h, arguments = [''--wait''],
      stdin = GenerateInputFromRuleSet mem h\<rparr>"

text \<open>\<open>strings.Contains\<close>: the second string occurs in the first as a contiguous run.\<close>

definition Contains :: "string \<Rightarrow> string \<Rightarrow> bool" where
  "Contains s substr = sublist substr s"

definition failing_host :: "Invocation \<Rightarrow> Completed" where
  "failing_host cmd =
     (if ''--wait'' \<in> set (arguments cmd)
      then \<lparr>stdout = ''out'', stderr = ''line 2 failed'', run_err = Some (ExitError ''exit status 2'')\<rparr>
      else \<lparr>stdout = '''', stderr = '''', run_err = None\<rparr>)"

subsection \<open>C7: ReplaceRules reports the tool's failure\<close>

lemma Contains_mid: "Contains (p @ x @ q) x"
  unfolding Contains_def sublist_def by blast

text \<open>
  Claim C7. \<open>ReplaceRules\<close> invokes the restore tool exactly once, with the single
  argument \<open>--wait\<close> and the serialized ruleset on standard input. For every accumulator
  state: if the tool exits non-zero, \<open>ReplaceRules\<close> returns an error whose message
  contains the tool's standard output, its standard error and its exit state (and which
  wraps the tool's error); if the tool succeeds, \<open>ReplaceRules\<close> returns \<open>nil\<close>.
\<close>

theorem ReplaceRules_reports:
  "fst (ReplaceRules host mem h) = [restore_call mem h]
   \<and> (run_err (host (restore_call mem h)) = None \<longrightarrow> snd (ReplaceRules host mem h) = None)
   \<and> (\<forall>exit_state. run_err (host (restore_call mem h)) = Some (ExitError exit_state) \<longrightarrow>
         (\<exists>e. snd (ReplaceRules host mem h) = Some e
            \<and> Contains (message e) (stdout (host (restore_call mem h)))
            \<and> Contains (message e) (stderr (host (restore_call mem h)))
            \<and> Contains (message e) exit_state
            \<and> wraps e = ExitError exit_state
            \<and> message e = ''iptables-helper: fail to replace rules. stdout = ''
                  @ stdout (host (restore_call mem h)) @ ''; stderr = ''
                  @ stderr (host (restore_call mem h)) @ ''; error = '' @ exit_state))"
proof -
  let ?c = "host (restore_call mem h)"
  have calls: "fst (ReplaceRules host mem h) = [restore_call mem h]"
    by (simp add: ReplaceRules_def runRestoreCommand_def restore_call_def Let_def
        split: option.split)
  have ok: "snd (ReplaceRules host mem h) = None" if "run_err ?c = None"
    using that unfolding restore_call_def
    by (simp add: ReplaceRules_def runRestoreCommand_def Let_def)
  have bad: "\<exists>e. snd (ReplaceRules host mem h) = Some e
            \<and> Contains (message e) (stdout ?c) \<and> Contains (message e) (stderr ?c)
            \<and> Contains (message e) exit_state \<and> wraps e = ExitError exit_state
            \<and> message e = ''iptables-helper: fail to replace rules. stdout = ''
                  @ stdout ?c @ ''; stderr = '' @ stderr ?c @ ''; error = '' @ exit_state"
    if f: "run_err ?c = Some (ExitError exit_state)" for exit_state
  proof -
    let ?m = "''iptables-helper: fail to replace rules. stdout = ''
                  @ stdout ?c @ ''; stderr = '' @ stderr ?c @ ''; error = '' @ exit_state"
    have r: "snd (ReplaceRules host mem h) = Some \<lparr>message = ?m, wraps = ExitError exit_state\<rparr>"
      using f unfolding restore_call_def
      by (simp add: ReplaceRules_def runRestoreCommand_def Let_def)
    have 1: "Contains ?m (stdout ?c)"
      using Contains_mid [of "''iptables-helper: fail to replace rules. stdout = ''" "stdout ?c"
          "''; stderr = '' @ stderr ?c @ ''; error = '' @ exit_state"]
      by simp
    have 2: "Contains ?m (stderr ?c)"
      using Contains_mid [of "''iptables-helper: fail to replace rules. stdout = '' @ stdout ?c
          @ ''; stderr = ''" "stderr ?c" "''; error = '' @ exit_state"]
      by simp
    have 3: "Contains ?m exit_state"
      using Contains_mid [of "''iptables-helper: fail to replace rules. stdout = '' @ stdout ?c
          @ ''; stderr = '' @ stderr ?c @ ''; error = ''" exit_state "[]"]
      by simp
    from r 1 2 3 show ?thesis by simp
  qed
  from calls ok bad show ?thesis by blast
qed

theorem ReplaceRules_reports_witness:
  "run_err (failing_host (restore_call example_memory example_forward)) = Some (ExitError ''exit status 2'')
   \<and> fst (ReplaceRules failing_host example_memory example_forward) =
       [\<lparr>command = ''iptables-restore'', arguments = [''--wait''],
         stdin = GenerateInputFromRuleSet example_memory example_forward\<rparr>]
   \<and> (\<exists>e. snd (ReplaceRules failing_host example_memory example_forward) = Some e
         \<and> Contains (message e) ''out''
         \<and> Contains (message e) ''line 2 failed''
         \<and> Contains (message e) ''exit status 2''
         \<and> message e = ''iptables-helper: fail to replace rules. stdout = out; stderr = line 2 failed; error = exit status 2'')"
proof -
  have f: "run_err (failing_host (restore_call example_memory example_forward)) = Some (ExitError ''exit status 2'')"
    by (simp add: failing_host_def restore_call_def)
  have o: "stdout (failing_host (restore_call example_memory example_forward)) = ''out''"
       "stderr (failing_host (restore_call example_memory example_forward)) = ''line 2 failed''"
    by (simp_all add: failing_host_def restore_call_def)
  have c: "restore_call example_memory example_forward =
       \<lparr>command = ''iptables-restore'', arguments = [''--wait''],
         stdin = GenerateInputFromRuleSet example_memory example_forward\<rparr>"
    by (simp add: restore_call_def example_forward_def)
  from ReplaceRules_reports [of failing_host example_memory example_forward] f
  have "fst (ReplaceRules failing_host example_memory example_forward) = [restore_call example_memory example_forward]
    \<and> (\<exists>e. snd (ReplaceRules failing_host example_memory example_forward) = Some e
            \<and> Contains (message e) (stdout (failing_host (restore_call example_memory example_forward)))
            \<and> Contains (message e) (stderr (failing_host (restore_call example_memory example_forward)))
            \<and> Contains (message e) ''exit status 2''
            \<and> message e = ''iptables-helper: fail to replace rules. stdout = ''
                  @ stdout (failing_host (restore_call example_memory example_forward)) @ ''; stderr = ''
                  @ stderr (failing_host (restore_call example_memory example_forward)) @ ''; error = ''
                  @ ''exit status 2'')"
    by blast
  then show ?thesis using f unfolding o by (simp add: c)
qed

section \<open>Connector controller (package connector)\<close>

text \<open>
  Go maps and the string set are finite by construction: they are modelled by finite
  maps and finite sets. The mutex only serialises the methods; the model is sequential.
\<close>

record Node =
  Name :: string
  IP :: string
  PodCIDRs :: "string list"

text \<open>
  \<open>types.Endpoint\<close> and \<open>netconf.TunnelEndpoint\<close>: their declarations are not among the
  source files; the fields are those the controller sets and the specification lists.
  A field the code leaves out of a struct literal has its zero value.
\<close>

record Endpoint =
  ID :: string
  EpName :: string
  PublicAddresses :: "string list"
  Subnets :: "string list"
  NodeSubnets :: "string list"
  EpType :: string

record TunnelEndpoint =
  TeID :: string
  TeName :: string
  TePublicAddresses :: "string list"
  TeSubnets :: "string list"
  TeNodeSubnets :: "string list"
  TeType :: string

record NetworkConf =
  ConfTunnelEndpoint :: TunnelEndpoint
  Peers :: "TunnelEndpoint list"

text \<open>
  Modelled from the spec: \<open>Endpoint.ConvertToTunnelEndpoint\<close> (package types) is not
  among the source files. The specification gives the emitted record the fields
  \<open>id, name, publicAddresses, subnets, nodeSubnets, type\<close> of the endpoint.
\<close>

definition ConvertToTunnelEndpoint :: "Endpoint \<Rightarrow> TunnelEndpoint" where
  "ConvertToTunnelEndpoint ep =
     \<lparr>TeID = ID ep, TeName = EpName ep, TePublicAddresses = PublicAddresses ep,
      TeSubnets = Subnets ep, TeNodeSubnets = NodeSubnets ep, TeType = EpType ep\<rparr>"

text \<open>
  Modelled from the spec: \<open>stringset.Set.Values\<close> belongs to a library outside the
  repository. The specification has the values come out in name order ("ordered stably",
  "by node-name", "sorted by Name"): the elements in ascending byte-wise order.
\<close>

definition Values :: "string fset \<Rightarrow> string list" where
  "Values s = sorted_list_of_fset s"

subsection \<open>The endpoint store\<close>

text \<open>
  Modelled from the spec: the store (package store) is not among the source files. The
  specification describes it as a map from endpoint name to endpoint: \<open>Save\<close> inserts or
  replaces by \<open>Name\<close>, \<open>Delete\<close> removes a name, \<open>GetAllEndpointNames\<close> is a snapshot of
  the key set, and \<open>GetEndpoints\<close> returns the endpoints of the given names in argument
  order, silently skipping the names that are missing.
\<close>

type_synonym Store = "(string, Endpoint) fmap"

text \<open>Modelled from the spec: \<open>Save(e)\<close>, insert or replace by \<open>Name\<close>.\<close>

definition SaveEndpoint :: "Store \<Rightarrow> Endpoint \<Rightarrow> Store" where
  "SaveEndpoint s ep = fmupd (EpName ep) ep s"

text \<open>Modelled from the spec: \<open>Delete(name)\<close>, idempotent.\<close>

definition DeleteEndpoint :: "Store \<Rightarrow> string \<Rightarrow> Store" where
  "DeleteEndpoint s nm = fmdrop nm s"

text \<open>Modelled from the spec: \<open>GetAllEndpointNames()\<close>, a snapshot of the key set.\<close>

definition GetAllEndpointNames :: "Store \<Rightarrow> string fset" where
  "GetAllEndpointNames s = fmdom s"

text \<open>
  Modelled from the spec: \<open>GetEndpoints(names...)\<close>, order follows the argument order,
  missing names silently skipped.
\<close>

fun GetEndpoints :: "Store \<Rightarrow> string list \<Rightarrow> Endpoint list" where
  "GetEndpoints s [] = []"
| "GetEndpoints s (nm # nms) =
     (case fmlookup s nm of
        None \<Rightarrow> GetEndpoints s nms
      | Some ep \<Rightarrow> ep # GetEndpoints s nms)"

text \<open>The stores that \<open>Save\<close> and \<open>Delete\<close> can build from the empty one.\<close>

inductive built_store :: "Store \<Rightarrow> bool" where
  empty_store: "built_store fmempty"
| saved: "built_store s \<Longrightarrow> built_store (SaveEndpoint s ep)"
| deleted: "built_store s \<Longrightarrow> built_store (DeleteEndpoint s nm)"

subsection \<open>The controller\<close>

text \<open>
  The fields of \<open>controller\<close> that the modelled methods read or write. The cluster client
  is not a field of the model: what a call to the cluster API returns is an argument of
  the method that makes the call.
\<close>

record controller =
  configMapKeyName :: string
  configMapKeyNamespace :: string
  connectorID :: string
  connectorName :: string
  connectorPublicAddress :: "string list"
  providedSubnets :: "string list"
  collectPodCIDRs :: bool
  store :: Store
  nodeNameSet :: "string fset"
  nodeCache :: "(string, Node) fmap"
  connectorEndpoint :: Endpoint

record Config =
  ConnectorID :: string
  ConnectorName :: string
  ConnectorPublicAddresses :: "string list"
  ConnectorConfigName :: string
  ProvidedSubnets :: "string list"
  CollectPodCIDRs :: bool
  Namespace :: string
  ConfigStore :: Store

definition zeroEndpoint :: Endpoint where
  "zeroEndpoint = \<lparr>ID = '''', EpName = '''', PublicAddresses = [], Subnets = [],
                    NodeSubnets = [], EpType = ''''\<rparr>"

definition zeroNode :: Node where
  "zeroNode = \<lparr>Name = '''', IP = '''', PodCIDRs = []\<rparr>"

text \<open>The controller value \<open>AddToManager\<close> builds, before \<open>initializeConnectorEndpoint\<close>.\<close>

definition newController :: "Config \<Rightarrow> controller" where
  "newController cnf =
     \<lparr>configMapKeyName = ConnectorConfigName cnf,
      configMapKeyNamespace = Namespace cnf,
      connectorID = ConnectorID cnf,
      connectorName = ConnectorName cnf,
      connectorPublicAddress = ConnectorPublicAddresses cnf,
      providedSubnets = ProvidedSubnets cnf,
      collectPodCIDRs = CollectPodCIDRs cnf,
      store = ConfigStore cnf,
      nodeNameSet = {||},
      nodeCache = fmempty,
      connectorEndpoint = zeroEndpoint\<rparr>"

text \<open>
  A cluster node as the controller sees it: its name, its deletion timestamp, and what
  \<open>nodeutil.GetIP\<close> and \<open>nodeutil.GetPodCIDRs\<close> (not among the source files) extract
  from it.
\<close>

record ClusterNode =
  ObjName :: string
  DeletionTimestamp :: "nat option"
  GetIP :: string
  GetPodCIDRs :: "string list"

text \<open>Indexing a Go map with a missing key yields the zero value.\<close>

definition cacheAt :: "(string, Node) fmap \<Rightarrow> string \<Rightarrow> Node" where
  "cacheAt cache nodeName = (case fmlookup cache nodeName of None \<Rightarrow> zeroNode | Some n \<Rightarrow> n)"

fun collectNodes ::
  "(string, Node) fmap \<Rightarrow> string list \<Rightarrow> string list \<Rightarrow> string list
     \<Rightarrow> string list \<times> string list" where
  "collectNodes cache [] subnets nodeSubnets = (subnets, nodeSubnets)"
| "collectNodes cache (nodeName # rest) subnets nodeSubnets =
     (let node = cacheAt cache nodeName
      in collectNodes cache rest (subnets @ PodCIDRs node) (nodeSubnets @ [IP node]))"

definition rebuildConnectorEndpoint :: "controller \<Rightarrow> controller" where
  "rebuildConnectorEndpoint ctl =
     (case collectNodes (nodeCache ctl) (Values (nodeNameSet ctl)) ([] @ providedSubnets ctl) [] of
        (subnets, nodeSubnets) \<Rightarrow>
          ctl\<lparr>connectorEndpoint :=
                \<lparr>ID = connectorID ctl, EpName = connectorName ctl,
                 PublicAddresses = connectorPublicAddress ctl,
                 Subnets = subnets, NodeSubnets = nodeSubnets, EpType = ''''\<rparr>\<rparr>)"

definition getConnectorEndpoint :: "controller \<Rightarrow> Endpoint" where
  "getConnectorEndpoint ctl = connectorEndpoint ctl"

definition addNode :: "controller \<Rightarrow> ClusterNode \<Rightarrow> bool \<Rightarrow> controller" where
  "addNode ctl node rebuild =
     (let ip = GetIP node; podCIDRs = GetPodCIDRs node
      in if length ip = 0 \<or> length podCIDRs = 0 then ctl
         else let podCIDRs1 = (if \<not> collectPodCIDRs ctl then [] else podCIDRs)
              in if ObjName node |\<in>| nodeNameSet ctl then ctl
                 else let ctl1 = ctl\<lparr>nodeNameSet := finsert (ObjName node) (nodeNameSet ctl),
                                       nodeCache := fmupd (ObjName node)
                                          \<lparr>Name = ObjName node, IP = ip, PodCIDRs = podCIDRs1\<rparr>
                                          (nodeCache ctl)\<rparr>
                      in if rebuild then rebuildConnectorEndpoint ctl1 else ctl1)"

definition removeNode :: "controller \<Rightarrow> string \<Rightarrow> controller" where
  "removeNode ctl nodeName =
     rebuildConnectorEndpoint
       (ctl\<lparr>nodeNameSet := nodeNameSet ctl |-| {|nodeName|},
            nodeCache := fmdrop nodeName (nodeCache ctl)\<rparr>)"

text \<open>What \<open>client.Get\<close> returned for the requested node.\<close>

datatype fetched = NotFound | GetFailed string | Found ClusterNode

text \<open>\<open>onNodeRequest\<close> returns the controller and the error handed back to the work queue.\<close>

definition onNodeRequest :: "controller \<Rightarrow> string \<Rightarrow> fetched \<Rightarrow> controller \<times> string option" where
  "onNodeRequest ctl requestName got =
     (case got of
        NotFound \<Rightarrow> (removeNode ctl requestName, None)
      | GetFailed err \<Rightarrow> (ctl, Some err)
      | Found node \<Rightarrow>
          if DeletionTimestamp node \<noteq> None then (removeNode ctl requestName, None)
          else (addNode ctl node True, None))"

text \<open>
  \<open>initializeConnectorEndpoint\<close>, given the outcome of \<open>client.List\<close>: the nodes, each
  with what \<open>nodeutil.IsEdgeNode\<close> says of it, or an error.
\<close>

fun addListed :: "controller \<Rightarrow> (ClusterNode \<times> bool) list \<Rightarrow> controller" where
  "addListed ctl [] = ctl"
| "addListed ctl ((node, isEdge) # items) =
     (if isEdge then addListed ctl items else addListed (addNode ctl node False) items)"

definition initializeConnectorEndpoint ::
  "controller \<Rightarrow> string + (ClusterNode \<times> bool) list \<Rightarrow> string + controller" where
  "initializeConnectorEndpoint ctl listed =
     (case listed of
        Inl err \<Rightarrow> Inl err
      | Inr items \<Rightarrow> Inr (rebuildConnectorEndpoint (addListed ctl items)))"

definition getPeers :: "controller \<Rightarrow> TunnelEndpoint list" where
  "getPeers ctl =
     (let nameSet = GetAllEndpointNames (store ctl);
          endpoints = GetEndpoints (store ctl) (Values nameSet)
      in foldl (\<lambda>peers ep. peers @ [ConvertToTunnelEndpoint ep]) [] endpoints)"

text \<open>
  The controller states a run can reach: the fresh controller, changed by the node
  methods; the store is shared with other controllers, which save and delete endpoints.
\<close>

inductive running :: "controller \<Rightarrow> bool" where
  started: "running (newController cnf)"
| added: "running ctl \<Longrightarrow> running (addNode ctl node rebuild)"
| removed: "running ctl \<Longrightarrow> running (removeNode ctl nodeName)"
| rebuilt: "running ctl \<Longrightarrow> running (rebuildConnectorEndpoint ctl)"
| store_saved: "running ctl \<Longrightarrow> running (ctl\<lparr>store := SaveEndpoint (store ctl) ep\<rparr>)"
| store_deleted: "running ctl \<Longrightarrow> running (ctl\<lparr>store := DeleteEndpoint (store ctl) nm\<rparr>)"

text \<open>The cached nodes in ascending order of their cache key, which is the node name.\<close>

definition cachedNodes :: "controller \<Rightarrow> Node list" where
  "cachedNodes ctl = map snd (sorted_list_of_fmap (nodeCache ctl))"

text \<open>
  The invariant of the running controller: the name set is the key set of the cache,
  every cached node is stored under its own name, and a controller that does not
  collect pod CIDRs caches none.
\<close>

definition cache_ok :: "controller \<Rightarrow> bool" where
  "cache_ok ctl \<longleftrightarrow>
     fmdom (nodeCache ctl) = nodeNameSet ctl
     \<and> fmpred (\<lambda>k nd. Name nd = k \<and> (collectPodCIDRs ctl \<or> PodCIDRs nd = [])) (nodeCache ctl)"

definition example_config :: Config where
  "example_config =
     \<lparr>ConnectorID = ''C=CN, O=fabedge.io, CN=cloud-connector'', ConnectorName = ''cloud-connector'',
      ConnectorPublicAddresses = [''192.0.2.10''], ConnectorConfigName = ''connector-config'',
      ProvidedSubnets = [''192.168.0.0/16''], CollectPodCIDRs = True,
      Namespace = ''fabedge'', ConfigStore = fmempty\<rparr>"

definition node_n1 :: ClusterNode where
  "node_n1 = \<lparr>ObjName = ''n1'', DeletionTimestamp = None, GetIP = ''10.0.0.1'',
              GetPodCIDRs = [''10.244.1.0/24'']\<rparr>"

definition node_n2 :: ClusterNode where
  "node_n2 = \<lparr>ObjName = ''n2'', DeletionTimestamp = None, GetIP = ''10.0.0.2'',
              GetPodCIDRs = [''10.244.2.0/24'']\<rparr>"

text \<open>The controller after the nodes \<open>n2\<close> and \<open>n1\<close> were seen, in that order.\<close>

definition example_controller :: controller where
  "example_controller = addNode (addNode (newController example_config) node_n2 True) node_n1 True"
subsection \<open>The controller's invariant\<close>

lemma collectNodes_eq:
  "collectNodes cache ns subnets nodeSubnets =
     (subnets @ concat (map (\<lambda>n. PodCIDRs (cacheAt cache n)) ns),
      nodeSubnets @ map (\<lambda>n. IP (cacheAt cache n)) ns)"
  by (induction ns arbitrary: subnets nodeSubnets) (simp_all add: Let_def)

lemma rebuild_fields:
  "nodeCache (rebuildConnectorEndpoint ctl) = nodeCache ctl"
  "nodeNameSet (rebuildConnectorEndpoint ctl) = nodeNameSet ctl"
  "collectPodCIDRs (rebuildConnectorEndpoint ctl) = collectPodCIDRs ctl"
  "store (rebuildConnectorEndpoint ctl) = store ctl"
  by (simp_all add: rebuildConnectorEndpoint_def collectNodes_eq)

lemma cache_ok_rebuild: "cache_ok ctl \<Longrightarrow> cache_ok (rebuildConnectorEndpoint ctl)"
  by (simp add: cache_ok_def rebuild_fields)

lemma cache_ok_addNode: "cache_ok ctl \<Longrightarrow> cache_ok (addNode ctl node rebuild)"
proof -
  assume ok: "cache_ok ctl"
  let ?nd = "\<lparr>Name = ObjName node, IP = GetIP node,
              PodCIDRs = (if \<not> collectPodCIDRs ctl then [] else GetPodCIDRs node)\<rparr>"
  let ?c1 = "ctl\<lparr>nodeNameSet := finsert (ObjName node) (nodeNameSet ctl),
                 nodeCache := fmupd (ObjName node) ?nd (nodeCache ctl)\<rparr>"
  have c1: "cache_ok ?c1"
    using ok by (auto simp: cache_ok_def)
  have "addNode ctl node rebuild = ctl \<or> addNode ctl node rebuild = ?c1
        \<or> addNode ctl node rebuild = rebuildConnectorEndpoint ?c1"
    by (simp add: addNode_def Let_def)
  with ok c1 cache_ok_rebuild [OF c1] show ?thesis by metis
qed

lemma cache_ok_removeNode: "cache_ok ctl \<Longrightarrow> cache_ok (removeNode ctl nodeName)"
proof -
  assume ok: "cache_ok ctl"
  have "cache_ok (ctl\<lparr>nodeNameSet := nodeNameSet ctl |-| {|nodeName|},
                      nodeCache := fmdrop nodeName (nodeCache ctl)\<rparr>)"
    using ok by (auto simp: cache_ok_def)
  then show ?thesis unfolding removeNode_def by (rule cache_ok_rebuild)
qed

lemma running_cache_ok: "running ctl \<Longrightarrow> cache_ok ctl"
proof (induction rule: running.induct)
  case (started cnf)
  show ?case by (simp add: cache_ok_def newController_def)
next
  case (added ctl node rebuild)
  then show ?case by (simp add: cache_ok_addNode)
next
  case (removed ctl nodeName)
  then show ?case by (simp add: cache_ok_removeNode)
next
  case (rebuilt ctl)
  then show ?case by (simp add: cache_ok_rebuild)
next
  case (store_saved ctl ep)
  then show ?case by (simp add: cache_ok_def)
next
  case (store_deleted ctl nm)
  then show ?case by (simp add: cache_ok_def)
qed

lemma running_addListed: "running ctl \<Longrightarrow> running (addListed ctl items)"
  by (induction ctl items rule: addListed.induct) (simp_all add: running.added)

lemma running_initializeConnectorEndpoint:
  "running ctl \<Longrightarrow> initializeConnectorEndpoint ctl listed = Inr ctl' \<Longrightarrow> running ctl'"
  by (auto simp: initializeConnectorEndpoint_def running_addListed running.rebuilt
      split: sum.splits)

lemma running_onNodeRequest:
  "running ctl \<Longrightarrow> running (fst (onNodeRequest ctl requestName got))"
  by (auto simp: onNodeRequest_def running.added running.removed split: fetched.splits)

lemma cachedNodes_eq:
  "cachedNodes ctl = map (cacheAt (nodeCache ctl)) (Values (fmdom (nodeCache ctl)))"
proof -
  have "the (fmlookup m k) = cacheAt m k" if "k |\<in>| fmdom m" for m k
    using that by (auto simp: cacheAt_def split: option.split)
  then show ?thesis
    by (simp add: cachedNodes_def sorted_list_of_fmap_def Values_def sorted_list_of_fset_simps)
qed

lemma cachedNodes_names:
  assumes "cache_ok ctl"
  shows "map Name (cachedNodes ctl) = Values (nodeNameSet ctl)"
proof -
  have "Name (cacheAt (nodeCache ctl) k) = k" if "k |\<in>| fmdom (nodeCache ctl)" for k
  proof -
    from that obtain nd where l: "fmlookup (nodeCache ctl) k = Some nd" by auto
    with assms have "Name nd = k" unfolding cache_ok_def by (auto dest: fmpredD)
    with l show ?thesis by (simp add: cacheAt_def)
  qed
  moreover have "fmdom (nodeCache ctl) = nodeNameSet ctl" using assms by (simp add: cache_ok_def)
  ultimately have "map (\<lambda>k. Name (cacheAt (nodeCache ctl) k)) (Values (nodeNameSet ctl))
      = Values (nodeNameSet ctl)"
    by (intro map_idI) (simp add: Values_def sorted_list_of_fset_simps)
  with \<open>fmdom (nodeCache ctl) = nodeNameSet ctl\<close> show ?thesis
    by (simp add: cachedNodes_eq comp_def)
qed

lemma cachedNodes_no_cidrs:
  assumes "cache_ok ctl" "\<not> collectPodCIDRs ctl"
  shows "concat (map PodCIDRs (cachedNodes ctl)) = []"
proof -
  have "PodCIDRs (cacheAt (nodeCache ctl) k) = []" for k
  proof (cases "fmlookup (nodeCache ctl) k")
    case None
    then show ?thesis by (simp add: cacheAt_def zeroNode_def)
  next
    case (Some nd)
    with assms have "PodCIDRs nd = []" unfolding cache_ok_def by (auto dest: fmpredD)
    with Some show ?thesis by (simp add: cacheAt_def)
  qed
  then show ?thesis by (simp add: cachedNodes_eq)
qed

lemma running_example_controller: "running example_controller"
  unfolding example_controller_def by (intro running.added running.started)

lemma example_controller_eq:
  "nodeNameSet example_controller = {|''n1'', ''n2''|}"
  "nodeCache example_controller =
     fmupd ''n1'' \<lparr>Name = ''n1'', IP = ''10.0.0.1'', PodCIDRs = [''10.244.1.0/24'']\<rparr>
       (fmupd ''n2'' \<lparr>Name = ''n2'', IP = ''10.0.0.2'', PodCIDRs = [''10.244.2.0/24'']\<rparr> fmempty)"
  "collectPodCIDRs example_controller"
  "providedSubnets example_controller = [''192.168.0.0/16'']"
  by (simp_all add: example_controller_def addNode_def newController_def example_config_def
      node_n1_def node_n2_def Let_def rebuildConnectorEndpoint_def collectNodes_eq)

subsection \<open>C4: the rebuilt connector endpoint\<close>

text \<open>
  Claim C4. The rebuilt connector endpoint is a function of the node cache and the
  static configuration only. In every state of the running controller, after
  \<open>rebuildConnectorEndpoint\<close>: \<open>NodeSubnets\<close> is the list of the cached nodes' IPs in
  node-name order; when \<open>CollectPodCIDRs\<close> is true, \<open>Subnets\<close> is \<open>ProvidedSubnets\<close>
  followed by the \<open>PodCIDRs\<close> of every cached node in the same order; when it is false,
  the cache holds no pod CIDRs and \<open>Subnets\<close> is exactly \<open>ProvidedSubnets\<close>.
\<close>

theorem rebuildConnectorEndpoint_pure:
  assumes "running ctl"
  shows "connectorEndpoint (rebuildConnectorEndpoint ctl) =
           \<lparr>ID = connectorID ctl, EpName = connectorName ctl,
            PublicAddresses = connectorPublicAddress ctl,
            Subnets = (if collectPodCIDRs ctl
                       then providedSubnets ctl @ concat (map PodCIDRs (cachedNodes ctl))
                       else providedSubnets ctl),
            NodeSubnets = map IP (cachedNodes ctl), EpType = ''''\<rparr>
         \<and> map Name (cachedNodes ctl) = sorted_list_of_fset (fmdom (nodeCache ctl))"
proof -
  have ok: "cache_ok ctl" using assms by (rule running_cache_ok)
  then have dom: "fmdom (nodeCache ctl) = nodeNameSet ctl" by (simp add: cache_ok_def)
  have ep: "connectorEndpoint (rebuildConnectorEndpoint ctl) =
           \<lparr>ID = connectorID ctl, EpName = connectorName ctl,
            PublicAddresses = connectorPublicAddress ctl,
            Subnets = providedSubnets ctl @ concat (map PodCIDRs (cachedNodes ctl)),
            NodeSubnets = map IP (cachedNodes ctl), EpType = ''''\<rparr>"
    by (simp add: rebuildConnectorEndpoint_def collectNodes_eq cachedNodes_eq dom comp_def)
  have names: "map Name (cachedNodes ctl) = sorted_list_of_fset (fmdom (nodeCache ctl))"
    using cachedNodes_names [OF ok] by (simp add: dom Values_def)
  show ?thesis
  proof (cases "collectPodCIDRs ctl")
    case True
    with ep names show ?thesis by simp
  next
    case False
    with ep names cachedNodes_no_cidrs [OF ok False] show ?thesis by simp
  qed
qed

theorem rebuildConnectorEndpoint_pure_witness:
  "running example_controller
   \<and> Subnets (connectorEndpoint (rebuildConnectorEndpoint example_controller)) =
       [''192.168.0.0/16'', ''10.244.1.0/24'', ''10.244.2.0/24'']
   \<and> NodeSubnets (connectorEndpoint (rebuildConnectorEndpoint example_controller)) =
       [''10.0.0.1'', ''10.0.0.2'']
   \<and> map Name (cachedNodes example_controller) = [''n1'', ''n2'']"
proof -
  have c: "cachedNodes example_controller =
      [\<lparr>Name = ''n1'', IP = ''10.0.0.1'', PodCIDRs = [''10.244.1.0/24'']\<rparr>,
       \<lparr>Name = ''n2'', IP = ''10.0.0.2'', PodCIDRs = [''10.244.2.0/24'']\<rparr>]"
    by (simp add: cachedNodes_def sorted_list_of_fmap_def example_controller_eq
        sorted_list_of_fset.rep_eq)
  from rebuildConnectorEndpoint_pure [OF running_example_controller]
  show ?thesis
    by (simp add: c example_controller_eq running_example_controller)
qed

subsection \<open>C10: addNode only inserts\<close>

definition node_n1_changed :: ClusterNode where
  "node_n1_changed = \<lparr>ObjName = ''n1'', DeletionTimestamp = None, GetIP = ''10.0.0.9'',
                      GetPodCIDRs = [''10.244.9.0/24'']\<rparr>"

text \<open>
  Claim C10. \<open>addNode\<close> is insert-only. In every state of the running controller, for a
  node whose name is already a key of the node cache, \<open>addNode\<close> leaves the controller
  as it is: the cached entry, the name set and the connector endpoint are unchanged,
  whatever IP and PodCIDRs the node now has and whether or not a rebuild was asked for.
\<close>

theorem addNode_insert_only:
  assumes "running ctl" "fmlookup (nodeCache ctl) (ObjName node) = Some cached"
  shows "addNode ctl node rebuild = ctl"
proof -
  from assms(1) have "fmdom (nodeCache ctl) = nodeNameSet ctl"
    using running_cache_ok by (simp add: cache_ok_def)
  moreover from assms(2) have "ObjName node |\<in>| fmdom (nodeCache ctl)"
    by (simp add: fmdomI)
  ultimately have "ObjName node |\<in>| nodeNameSet ctl" by simp
  then show ?thesis by (simp add: addNode_def Let_def)
qed

theorem addNode_insert_only_witness:
  "running example_controller
   \<and> fmlookup (nodeCache example_controller) (ObjName node_n1_changed) =
       Some \<lparr>Name = ''n1'', IP = ''10.0.0.1'', PodCIDRs = [''10.244.1.0/24'']\<rparr>
   \<and> GetIP node_n1_changed = ''10.0.0.9''
   \<and> addNode example_controller node_n1_changed True = example_controller"
proof -
  have l: "fmlookup (nodeCache example_controller) (ObjName node_n1_changed) =
       Some \<lparr>Name = ''n1'', IP = ''10.0.0.1'', PodCIDRs = [''10.244.1.0/24'']\<rparr>"
    by (simp add: example_controller_eq node_n1_changed_def)
  from addNode_insert_only [OF running_example_controller l, of True] l
  show ?thesis by (simp add: running_example_controller node_n1_changed_def)
qed
subsection \<open>C5: the lifetime of a cached node\<close>

definition node_n1_no_ip :: ClusterNode where
  "node_n1_no_ip = \<lparr>ObjName = ''n1'', DeletionTimestamp = None, GetIP = '''',
                    GetPodCIDRs = [''10.244.1.0/24'']\<rparr>"

definition node_n1_deleting :: ClusterNode where
  "node_n1_deleting = \<lparr>ObjName = ''n1'', DeletionTimestamp = Some 1700000000,
                       GetIP = ''10.0.0.1'', GetPodCIDRs = [''10.244.1.0/24'']\<rparr>"

lemma removeNode_drops:
  "nodeName |\<notin>| fmdom (nodeCache (removeNode ctl nodeName))"
  "nodeName |\<notin>| nodeNameSet (removeNode ctl nodeName)"
  by (simp_all add: removeNode_def rebuild_fields)

text \<open>
  Claim C5 as stated fails in its last part: a reconcile event for the cached node \<open>n1\<close>,
  fetched alive but without an IP, leaves \<open>n1\<close> in the cache with its old IP.
\<close>

theorem node_without_ip_stays_cached:
  "fmlookup (nodeCache example_controller) ''n1'' =
     Some \<lparr>Name = ''n1'', IP = ''10.0.0.1'', PodCIDRs = [''10.244.1.0/24'']\<rparr>
   \<and> fmlookup (nodeCache (fst (onNodeRequest example_controller ''n1'' (Found node_n1_no_ip)))) ''n1'' =
     Some \<lparr>Name = ''n1'', IP = ''10.0.0.1'', PodCIDRs = [''10.244.1.0/24'']\<rparr>"
  by (simp add: onNodeRequest_def addNode_def node_n1_no_ip_def example_controller_eq)

text \<open>
  Claim C5, amended. On a reconcile event where the fetch returns NotFound or the node
  has a non-nil deletion timestamp, the requested node is dropped from the cache and
  from the name set, and no error is returned. On an event for a live node that has no
  IP or no PodCIDRs the event is skipped: the controller, and with it the cache, is left
  exactly as it was, so such a node is neither added nor removed.
\<close>

theorem onNodeRequest_lifetime:
  "(got = NotFound \<or> (\<exists>node. got = Found node \<and> DeletionTimestamp node \<noteq> None) \<longrightarrow>
      requestName |\<notin>| fmdom (nodeCache (fst (onNodeRequest ctl requestName got)))
      \<and> requestName |\<notin>| nodeNameSet (fst (onNodeRequest ctl requestName got))
      \<and> snd (onNodeRequest ctl requestName got) = None)
   \<and> (\<forall>node. got = Found node \<and> DeletionTimestamp node = None
              \<and> (GetIP node = '''' \<or> GetPodCIDRs node = []) \<longrightarrow>
        onNodeRequest ctl requestName got = (ctl, None))"
proof -
  have "requestName |\<notin>| fmdom (nodeCache (fst (onNodeRequest ctl requestName got)))
      \<and> requestName |\<notin>| nodeNameSet (fst (onNodeRequest ctl requestName got))
      \<and> snd (onNodeRequest ctl requestName got) = None"
    if "got = NotFound \<or> (\<exists>node. got = Found node \<and> DeletionTimestamp node \<noteq> None)"
    using that by (auto simp: onNodeRequest_def removeNode_drops)
  moreover have "onNodeRequest ctl requestName got = (ctl, None)"
    if "got = Found node \<and> DeletionTimestamp node = None
        \<and> (GetIP node = '''' \<or> GetPodCIDRs node = [])" for node
    using that by (auto simp: onNodeRequest_def addNode_def)
  ultimately show ?thesis by blast
qed

theorem onNodeRequest_lifetime_witness:
  "''n1'' |\<in>| fmdom (nodeCache example_controller)
   \<and> ''n1'' |\<notin>| fmdom (nodeCache (fst (onNodeRequest example_controller ''n1'' NotFound)))
   \<and> ''n1'' |\<notin>| fmdom (nodeCache (fst (onNodeRequest example_controller ''n1'' (Found node_n1_deleting))))
   \<and> ''n2'' |\<in>| fmdom (nodeCache (fst (onNodeRequest example_controller ''n1'' NotFound)))
   \<and> onNodeRequest example_controller ''n1'' (Found node_n1_no_ip) = (example_controller, None)"
proof -
  have d: "DeletionTimestamp node_n1_deleting \<noteq> None" "DeletionTimestamp node_n1_no_ip = None"
      "GetIP node_n1_no_ip = ''''"
    by (simp_all add: node_n1_deleting_def node_n1_no_ip_def)
  have k: "''n2'' |\<in>| fmdom (nodeCache (fst (onNodeRequest example_controller ''n1'' NotFound)))"
    by (simp add: onNodeRequest_def removeNode_def rebuild_fields example_controller_eq)
  from onNodeRequest_lifetime [of NotFound "''n1''" example_controller]
    onNodeRequest_lifetime [of "Found node_n1_deleting" "''n1''" example_controller]
    onNodeRequest_lifetime [of "Found node_n1_no_ip" "''n1''" example_controller]
    d k
  show ?thesis by (simp add: example_controller_eq)
qed

subsection \<open>C1: the peers of the connector\<close>

text \<open>
  The endpoints of the store in ascending order of their store key, and the list the
  specification asks for: the same with the connector's own endpoint left out.
\<close>

definition storeEndpoints :: "controller \<Rightarrow> Endpoint list" where
  "storeEndpoints ctl = map snd (sorted_list_of_fmap (store ctl))"

definition spec_peers :: "controller \<Rightarrow> TunnelEndpoint list" where
  "spec_peers ctl =
     map ConvertToTunnelEndpoint
       (filter (\<lambda>ep. ep \<noteq> getConnectorEndpoint ctl) (storeEndpoints ctl))"

definition edge1 :: Endpoint where
  "edge1 = \<lparr>ID = ''C=CN, O=fabedge.io, CN=edge1'', EpName = ''edge1'',
            PublicAddresses = [''198.51.100.1''], Subnets = [''10.245.1.0/24''],
            NodeSubnets = [''198.51.100.1''], EpType = ''EdgeNode''\<rparr>"

definition edge2 :: Endpoint where
  "edge2 = \<lparr>ID = ''C=CN, O=fabedge.io, CN=edge2'', EpName = ''edge2'',
            PublicAddresses = [''198.51.100.2''], Subnets = [''10.245.2.0/24''],
            NodeSubnets = [''198.51.100.2''], EpType = ''EdgeNode''\<rparr>"

text \<open>
  A controller whose store holds two edge endpoints, and one whose store also holds
  the connector's own endpoint.
\<close>

definition controller_two_edges :: controller where
  "controller_two_edges =
     example_controller\<lparr>store := SaveEndpoint (SaveEndpoint fmempty edge2) edge1\<rparr>"

definition controller_self_in_store :: controller where
  "controller_self_in_store =
     example_controller\<lparr>store := SaveEndpoint (SaveEndpoint fmempty edge1)
                                     (getConnectorEndpoint example_controller)\<rparr>"

lemma built_store_keys:
  "built_store s \<Longrightarrow> fmlookup s k = Some ep \<Longrightarrow> EpName ep = k"
proof (induction arbitrary: k ep rule: built_store.induct)
  case empty_store
  then show ?case by simp
next
  case (saved s e)
  then show ?case by (auto simp: SaveEndpoint_def split: if_splits)
next
  case (deleted s nm)
  then show ?case by (auto simp: DeleteEndpoint_def split: if_splits)
qed

lemma GetEndpoints_present:
  "fset_of_list nms |\<subseteq>| fmdom s \<Longrightarrow> GetEndpoints s nms = map (\<lambda>k. the (fmlookup s k)) nms"
proof (induction nms)
  case Nil
  show ?case by simp
next
  case (Cons nm nms)
  then obtain ep where "fmlookup s nm = Some ep" by (auto simp: fmlookup_dom_iff)
  with Cons show ?case by simp
qed

lemma foldl_snoc_map: "foldl (\<lambda>acc x. acc @ [f x]) acc xs = acc @ map f xs"
  by (induction xs arbitrary: acc) simp_all

lemma getPeers_eq: "getPeers ctl = map ConvertToTunnelEndpoint (storeEndpoints ctl)"
proof -
  have "GetEndpoints (store ctl) (sorted_list_of_fset (fmdom (store ctl))) =
        map (\<lambda>k. the (fmlookup (store ctl) k)) (sorted_list_of_fset (fmdom (store ctl)))"
    by (rule GetEndpoints_present) (simp add: sorted_list_of_fset_simps)
  then show ?thesis
    by (simp add: getPeers_def Let_def GetAllEndpointNames_def Values_def foldl_snoc_map
        storeEndpoints_def sorted_list_of_fmap_def comp_def)
qed

lemma storeEndpoints_names:
  assumes "built_store (store ctl)"
  shows "map EpName (storeEndpoints ctl) = sorted_list_of_fset (fmdom (store ctl))"
proof -
  have "EpName (the (fmlookup (store ctl) k)) = k" if "k |\<in>| fmdom (store ctl)" for k
  proof -
    from that obtain ep where "fmlookup (store ctl) k = Some ep" by auto
    with built_store_keys [OF assms this] show ?thesis by simp
  qed
  then have "map (\<lambda>k. EpName (the (fmlookup (store ctl) k))) (sorted_list_of_fset (fmdom (store ctl)))
      = sorted_list_of_fset (fmdom (store ctl))"
    by (intro map_idI) (simp add: sorted_list_of_fset_simps)
  then show ?thesis by (simp add: storeEndpoints_def sorted_list_of_fmap_def comp_def)
qed

lemma set_storeEndpoints: "set (storeEndpoints ctl) = fmran' (store ctl)"
proof -
  have "set (storeEndpoints ctl) = (\<lambda>k. the (fmlookup (store ctl) k)) ` fset (fmdom (store ctl))"
    by (simp add: storeEndpoints_def sorted_list_of_fmap_def sorted_list_of_fset_simps comp_def)
  also have "\<dots> = fmran' (store ctl)"
    by (force simp: fmran'_def fmlookup_dom_iff image_iff)
  finally show ?thesis .
qed

text \<open>
  Claim C1 as stated fails: when the store holds the connector's own endpoint, that
  endpoint is published among the connector's peers.
\<close>

theorem getPeers_includes_connector:
  "ConvertToTunnelEndpoint (getConnectorEndpoint controller_self_in_store)
     \<in> set (getPeers controller_self_in_store)
   \<and> getPeers controller_self_in_store \<noteq> spec_peers controller_self_in_store"
proof -
  have e: "getConnectorEndpoint example_controller \<noteq> edge1"
      "EpName (getConnectorEndpoint example_controller) = ''cloud-connector''"
    by (simp_all add: getConnectorEndpoint_def example_controller_def addNode_def Let_def
        newController_def example_config_def node_n1_def node_n2_def
        rebuildConnectorEndpoint_def collectNodes_eq edge1_def)
  have s: "storeEndpoints controller_self_in_store = [getConnectorEndpoint example_controller, edge1]"
    by (simp add: storeEndpoints_def sorted_list_of_fmap_def controller_self_in_store_def
        SaveEndpoint_def e edge1_def sorted_list_of_fset.rep_eq)
  have g: "getConnectorEndpoint controller_self_in_store = getConnectorEndpoint example_controller"
    by (simp add: controller_self_in_store_def getConnectorEndpoint_def)
  have 1: "getPeers controller_self_in_store =
           [ConvertToTunnelEndpoint (getConnectorEndpoint example_controller),
            ConvertToTunnelEndpoint edge1]"
    by (simp add: getPeers_eq s)
  have 2: "spec_peers controller_self_in_store = [ConvertToTunnelEndpoint edge1]"
    using e(1) by (simp add: spec_peers_def s g)
  show ?thesis unfolding 1 2 g by simp
qed

text \<open>
  Claim C1, amended. For every store built by \<open>Save\<close> and \<open>Delete\<close>, the \<open>Peers\<close> list of
  the published \<open>NetworkConf\<close> is the converted list of all endpoints of the store in
  ascending order of \<open>Name\<close>: every endpoint of the store occurs in it, once, and none is
  left out. It equals the sort-by-Name of the store without the connector's endpoint
  whenever the connector's endpoint is not in the store.
\<close>

theorem getPeers_sorted_all:
  assumes "built_store (store ctl)"
  shows "getPeers ctl = map ConvertToTunnelEndpoint (storeEndpoints ctl)
         \<and> map TeName (getPeers ctl) = sorted_list_of_fset (fmdom (store ctl))
         \<and> sorted (map TeName (getPeers ctl)) \<and> distinct (map TeName (getPeers ctl))
         \<and> set (getPeers ctl) = ConvertToTunnelEndpoint ` fmran' (store ctl)
         \<and> (getConnectorEndpoint ctl \<notin> fmran' (store ctl) \<longrightarrow> getPeers ctl = spec_peers ctl)"
proof -
  have n: "map TeName (getPeers ctl) = sorted_list_of_fset (fmdom (store ctl))"
    using storeEndpoints_names [OF assms]
    by (simp add: getPeers_eq comp_def ConvertToTunnelEndpoint_def)
  have s: "sorted (map TeName (getPeers ctl))" "distinct (map TeName (getPeers ctl))"
    unfolding n by (simp_all add: sorted_list_of_fset.rep_eq)
  have r: "set (getPeers ctl) = ConvertToTunnelEndpoint ` fmran' (store ctl)"
    by (simp add: getPeers_eq set_storeEndpoints)
  have "getPeers ctl = spec_peers ctl" if "getConnectorEndpoint ctl \<notin> fmran' (store ctl)"
  proof -
    from that have "filter (\<lambda>ep. ep \<noteq> getConnectorEndpoint ctl) (storeEndpoints ctl)
        = storeEndpoints ctl"
      by (auto simp: filter_id_conv set_storeEndpoints)
    then show ?thesis by (simp add: getPeers_eq spec_peers_def)
  qed
  with n s r getPeers_eq show ?thesis by blast
qed

theorem getPeers_sorted_all_witness:
  "built_store (store controller_two_edges)
   \<and> getConnectorEndpoint controller_two_edges \<notin> fmran' (store controller_two_edges)
   \<and> getPeers controller_two_edges = [ConvertToTunnelEndpoint edge1, ConvertToTunnelEndpoint edge2]
   \<and> map TeName (getPeers controller_two_edges) = [''edge1'', ''edge2'']
   \<and> getPeers controller_two_edges = spec_peers controller_two_edges"
proof -
  have b: "built_store (store controller_two_edges)"
    by (simp add: controller_two_edges_def built_store.intros)
  have s: "storeEndpoints controller_two_edges = [edge1, edge2]"
    by (simp add: storeEndpoints_def sorted_list_of_fmap_def controller_two_edges_def
        SaveEndpoint_def edge1_def edge2_def sorted_list_of_fset.rep_eq)
  have "EpName (getConnectorEndpoint controller_two_edges) = ''cloud-connector''"
    by (simp add: controller_two_edges_def getConnectorEndpoint_def example_controller_def
        addNode_def Let_def newController_def example_config_def node_n1_def node_n2_def
        rebuildConnectorEndpoint_def collectNodes_eq)
  then have "getConnectorEndpoint controller_two_edges \<notin> set (storeEndpoints controller_two_edges)"
    unfolding s by (auto simp: edge1_def edge2_def)
  then have c: "getConnectorEndpoint controller_two_edges \<notin> fmran' (store controller_two_edges)"
    by (simp add: set_storeEndpoints)
  from getPeers_sorted_all [OF b] c
  have p: "getPeers controller_two_edges =
             map ConvertToTunnelEndpoint (storeEndpoints controller_two_edges)"
    and q: "getPeers controller_two_edges = spec_peers controller_two_edges"
    by blast+
  have p1: "getPeers controller_two_edges =
              [ConvertToTunnelEndpoint edge1, ConvertToTunnelEndpoint edge2]"
    using p by (simp add: s)
  have p2: "map TeName (getPeers controller_two_edges) = [''edge1'', ''edge2'']"
    unfolding p1 by (simp add: ConvertToTunnelEndpoint_def edge1_def edge2_def)
  from b c p1 p2 q show ?thesis by blast
qed

section \<open>Publishing the connector's configuration\<close>

text \<open>
  The configuration artifact is a ConfigMap of the cluster. Its \<open>Data\<close> is a Go map, which
  is \<open>nil\<close> (here \<open>None\<close>) for a ConfigMap without data: reading a key of a nil map yields
  the empty string, assigning to one panics.
\<close>

record ConfigMap =
  CmName :: string
  CmNamespace :: string
  Data :: "(string, string) fmap option"

text \<open>The ConfigMaps of the cluster, by namespace and name.\<close>

type_synonym ClusterConfigMaps = "(string \<times> string, ConfigMap) fmap"

text \<open>
  The cluster API is outside the repository. Its contract: \<open>Get\<close> returns the stored
  object or NotFound, \<open>Create\<close> stores a new object, \<open>Update\<close> replaces a stored one, and
  any call may fail for a transient reason and then changes nothing. Which calls fail in
  one iteration is an input of the model.
\<close>

record ApiFaults =
  get_fails :: bool
  write_fails :: bool

datatype get_result = GetError | GetNotFound | GetOk ConfigMap

definition client_Get :: "ApiFaults \<Rightarrow> ClusterConfigMaps \<Rightarrow> string \<times> string \<Rightarrow> get_result" where
  "client_Get faults cluster key =
     (if get_fails faults then GetError
      else case fmlookup cluster key of None \<Rightarrow> GetNotFound | Some cm \<Rightarrow> GetOk cm)"

definition client_Create :: "ApiFaults \<Rightarrow> ClusterConfigMaps \<Rightarrow> ConfigMap \<Rightarrow> ClusterConfigMaps" where
  "client_Create faults cluster cm =
     (if write_fails faults \<or> (CmNamespace cm, CmName cm) |\<in>| fmdom cluster then cluster
      else fmupd (CmNamespace cm, CmName cm) cm cluster)"

definition client_Update :: "ApiFaults \<Rightarrow> ClusterConfigMaps \<Rightarrow> ConfigMap \<Rightarrow> ClusterConfigMaps" where
  "client_Update faults cluster cm =
     (if write_fails faults \<or> (CmNamespace cm, CmName cm) |\<notin>| fmdom cluster then cluster
      else fmupd (CmNamespace cm, CmName cm) cm cluster)"

datatype write_call = Create ConfigMap | Update ConfigMap

text \<open>
  What one run of \<open>updateConfigMapIfNeeded\<close> leaves behind: the cluster's ConfigMaps and
  the write calls it issued, in order; or a panic.
\<close>

datatype publish_outcome = Returned ClusterConfigMaps "write_call list" | Panicked

text \<open>\<open>cm.Data[key]\<close>: the value, or the empty string for a missing key or a nil map.\<close>

definition dataAt :: "ConfigMap \<Rightarrow> string \<Rightarrow> string" where
  "dataAt cm key =
     (case Data cm of
        None \<Rightarrow> ''''
      | Some d \<Rightarrow> (case fmlookup d key of None \<Rightarrow> '''' | Some v \<Rightarrow> v))"

text \<open>
  \<open>yaml.Marshal\<close> (a library) and \<open>constants.ConnectorConfigFileName\<close> (a constant that is
  not among the source files) are parameters; \<open>None\<close> from \<open>yaml_Marshal\<close> is its error.
\<close>

definition updateConfigMapIfNeeded ::
  "(NetworkConf \<Rightarrow> string option) \<Rightarrow> string \<Rightarrow> ApiFaults \<Rightarrow> controller
     \<Rightarrow> ClusterConfigMaps \<Rightarrow> publish_outcome" where
  "updateConfigMapIfNeeded yaml_Marshal ConnectorConfigFileName faults ctl cluster =
     (let connectorEndpoint = getConnectorEndpoint ctl;
          conf = \<lparr>ConfTunnelEndpoint = ConvertToTunnelEndpoint connectorEndpoint,
                  Peers = getPeers ctl\<rparr>
      in case yaml_Marshal conf of
           None \<Rightarrow> Returned cluster []
         | Some configData \<Rightarrow>
             (case client_Get faults cluster (configMapKeyNamespace ctl, configMapKeyName ctl) of
                GetError \<Rightarrow> Returned cluster []
              | GetNotFound \<Rightarrow>
                  (let cm = \<lparr>CmName = configMapKeyName ctl,
                             CmNamespace = configMapKeyNamespace ctl,
                             Data = Some (fmupd ConnectorConfigFileName configData fmempty)\<rparr>
                   in Returned (client_Create faults cluster cm) [Create cm])
              | GetOk cm \<Rightarrow>
                  if dataAt cm ConnectorConfigFileName = configData then Returned cluster []
                  else (case Data cm of
                          None \<Rightarrow> Panicked
                        | Some d \<Rightarrow>
                            (let cm1 = cm\<lparr>Data := Some (fmupd ConnectorConfigFileName configData d)\<rparr>
                             in Returned (client_Update faults cluster cm1) [Update cm1]))))"

text \<open>The \<open>NetworkConf\<close> the loop serializes.\<close>

definition publishedConf :: "controller \<Rightarrow> NetworkConf" where
  "publishedConf ctl =
     \<lparr>ConfTunnelEndpoint = ConvertToTunnelEndpoint (getConnectorEndpoint ctl),
      Peers = getPeers ctl\<rparr>"

text \<open>A stand-in serializer and a cluster for the examples.\<close>

definition example_marshal :: "NetworkConf \<Rightarrow> string option" where
  "example_marshal conf =
     Some (''tunnelEndpoint: '' @ TeName (ConfTunnelEndpoint conf) @ ''; peers: ''
           @ concat (map (\<lambda>p. TeName p @ '' '') (Peers conf)))"

definition example_cluster :: ClusterConfigMaps where
  "example_cluster =
     fmupd (''fabedge'', ''connector-config'')
       \<lparr>CmName = ''connector-config'', CmNamespace = ''fabedge'',
        Data = Some (fmupd ''tunnels.yaml''
                 ''tunnelEndpoint: cloud-connector; peers: edge1 edge2 '' fmempty)\<rparr>
       fmempty"

subsection \<open>C6: no write when nothing changed\<close>

text \<open>
  Claim C6. If the existing configuration artifact's payload is byte-equal to the
  freshly serialized \<open>NetworkConf\<close>, \<open>updateConfigMapIfNeeded\<close> issues no write call
  (neither create nor update) to the cluster API, whether or not the read succeeds, and
  the stored artifacts are left as they were.
\<close>

theorem updateConfigMapIfNeeded_skips:
  assumes "fmlookup cluster (configMapKeyNamespace ctl, configMapKeyName ctl) = Some cm"
    and "yaml_Marshal (publishedConf ctl) = Some configData"
    and "dataAt cm ConnectorConfigFileName = configData"
  shows "updateConfigMapIfNeeded yaml_Marshal ConnectorConfigFileName faults ctl cluster
           = Returned cluster []"
  using assms
  by (simp add: updateConfigMapIfNeeded_def publishedConf_def client_Get_def Let_def)

theorem updateConfigMapIfNeeded_skips_witness:
  "fmlookup example_cluster
      (configMapKeyNamespace controller_two_edges, configMapKeyName controller_two_edges)
     = Some \<lparr>CmName = ''connector-config'', CmNamespace = ''fabedge'',
             Data = Some (fmupd ''tunnels.yaml''
                 ''tunnelEndpoint: cloud-connector; peers: edge1 edge2 '' fmempty)\<rparr>
   \<and> example_marshal (publishedConf controller_two_edges)
       = Some ''tunnelEndpoint: cloud-connector; peers: edge1 edge2 ''
   \<and> updateConfigMapIfNeeded example_marshal ''tunnels.yaml''
        \<lparr>get_fails = False, write_fails = False\<rparr> controller_two_edges example_cluster
       = Returned example_cluster []"
proof -
  let ?cm = "\<lparr>CmName = ''connector-config'', CmNamespace = ''fabedge'',
             Data = Some (fmupd ''tunnels.yaml''
                 ''tunnelEndpoint: cloud-connector; peers: edge1 edge2 '' fmempty)\<rparr>"
  have k: "configMapKeyNamespace controller_two_edges = ''fabedge''"
      "configMapKeyName controller_two_edges = ''connector-config''"
      "EpName (getConnectorEndpoint controller_two_edges) = ''cloud-connector''"
    by (simp_all add: controller_two_edges_def getConnectorEndpoint_def example_controller_def
        addNode_def Let_def newController_def example_config_def node_n1_def node_n2_def
        rebuildConnectorEndpoint_def collectNodes_eq)
  have l: "fmlookup example_cluster
      (configMapKeyNamespace controller_two_edges, configMapKeyName controller_two_edges) = Some ?cm"
    by (simp add: k example_cluster_def)
  have s: "storeEndpoints controller_two_edges = [edge1, edge2]"
    by (simp add: storeEndpoints_def sorted_list_of_fmap_def controller_two_edges_def
        SaveEndpoint_def edge1_def edge2_def sorted_list_of_fset.rep_eq)
  have m: "example_marshal (publishedConf controller_two_edges)
       = Some ''tunnelEndpoint: cloud-connector; peers: edge1 edge2 ''"
    by (simp add: example_marshal_def publishedConf_def getPeers_eq s k
        ConvertToTunnelEndpoint_def edge1_def edge2_def)
  have d: "dataAt ?cm ''tunnels.yaml'' = ''tunnelEndpoint: cloud-connector; peers: edge1 edge2 ''"
    by (simp add: dataAt_def)
  from updateConfigMapIfNeeded_skips
         [where yaml_Marshal = example_marshal and ctl = controller_two_edges
            and cluster = example_cluster
            and faults = "\<lparr>get_fails = False, write_fails = False\<rparr>", OF l m d]
       l m
  show ?thesis by blast
qed

section \<open>Agent arguments (package types)\<close>

text \<open>
  Modelled from the spec: \<open>AgentArgumentMap\<close> and its methods are not among the source
  files; only their test is. The type is a Go map from argument name to value. \<open>Get\<close>
  of a missing key is the empty string (as the test expects). The specification: "The
  key \<open>log-level\<close> is rendered as the shorthand flag \<open>v\<close>, is always emitted last, and
  all others are emitted sorted alphabetically", "in byte-wise ascending order by flag
  name"; "\<open>enable-ipam\<close> and \<open>enable-proxy\<close> are truthy only on literal string
  \<open>true\<close>".
\<close>

type_synonym AgentArgumentMap = "(string, string) fmap"

text \<open>Modelled from the spec: the constructor and the accessors the test exercises.\<close>

definition NewAgentArgumentMap :: AgentArgumentMap where
  "NewAgentArgumentMap = fmempty"

definition Set_arg :: "AgentArgumentMap \<Rightarrow> string \<Rightarrow> string \<Rightarrow> AgentArgumentMap" where
  "Set_arg m k v = fmupd k v m"

definition Delete_arg :: "AgentArgumentMap \<Rightarrow> string \<Rightarrow> AgentArgumentMap" where
  "Delete_arg m k = fmdrop k m"

definition HasKey :: "AgentArgumentMap \<Rightarrow> string \<Rightarrow> bool" where
  "HasKey m k \<longleftrightarrow> k |\<in>| fmdom m"

definition Get_arg :: "AgentArgumentMap \<Rightarrow> string \<Rightarrow> string" where
  "Get_arg m k = (case fmlookup m k of None \<Rightarrow> '''' | Some v \<Rightarrow> v)"

text \<open>
  Modelled from the spec: \<open>IsIPAMEnabled\<close> and \<open>IsProxyEnabled\<close>, truthy only on the
  literal string \<open>true\<close>.
\<close>

definition IsIPAMEnabled :: "AgentArgumentMap \<Rightarrow> bool" where
  "IsIPAMEnabled m \<longleftrightarrow> Get_arg m ''enable-ipam'' = ''true''"

definition IsProxyEnabled :: "AgentArgumentMap \<Rightarrow> bool" where
  "IsProxyEnabled m \<longleftrightarrow> Get_arg m ''enable-proxy'' = ''true''"

text \<open>
  Modelled from the spec: \<open>ArgumentArray\<close>, a loop over the argument names in ascending order that skips
  \<open>log-level\<close> and appends \<open>--<name>=<value>\<close>; then \<open>--v=<level>\<close> is appended when the
  map has the key \<open>log-level\<close>.
\<close>

fun renderFlags :: "AgentArgumentMap \<Rightarrow> string list \<Rightarrow> string list \<Rightarrow> string list" where
  "renderFlags m [] args = args"
| "renderFlags m (nm # nms) args =
     (if nm = ''log-level'' then renderFlags m nms args
      else renderFlags m nms (args @ [''--'' @ nm @ ''='' @ Get_arg m nm]))"

definition ArgumentArray :: "AgentArgumentMap \<Rightarrow> string list" where
  "ArgumentArray m =
     (let args = renderFlags m (sorted_list_of_fset (fmdom m)) []
      in if HasKey m ''log-level'' then args @ [''--v='' @ Get_arg m ''log-level''] else args)"

text \<open>The names of the arguments other than \<open>log-level\<close>, ascending.\<close>

definition otherNames :: "AgentArgumentMap \<Rightarrow> string list" where
  "otherNames m = sorted_list_of_fset (fmdom m |-| {|''log-level''|})"

definition flag :: "AgentArgumentMap \<Rightarrow> string \<Rightarrow> string" where
  "flag m nm = ''--'' @ nm @ ''='' @ Get_arg m nm"

definition example_arguments :: AgentArgumentMap where
  "example_arguments =
     Set_arg (Set_arg (Set_arg NewAgentArgumentMap ''enable-proxy'' ''false'')
                ''enable-ipam'' ''true'') ''log-level'' ''3''"

subsection \<open>C8: the order of the argument array\<close>

lemma renderFlags_eq:
  "renderFlags m nms args = args @ map (flag m) (filter (\<lambda>nm. nm \<noteq> ''log-level'') nms)"
  by (induction nms arbitrary: args) (simp_all add: flag_def)

lemma filter_sorted_list_of_fset:
  "filter (\<lambda>x. x \<noteq> a) (sorted_list_of_fset s) = sorted_list_of_fset (s |-| {|a|})"
proof -
  have "sorted_list_of_set (fset s - {a}) = filter (\<lambda>x. x \<noteq> a) (sorted_list_of_set (fset s))"
  proof (rule sorted_distinct_set_unique)
    show "sorted (filter (\<lambda>x. x \<noteq> a) (sorted_list_of_set (fset s)))"
      by (simp add: sorted_wrt_filter)
    show "set (sorted_list_of_set (fset s - {a}))
          = set (filter (\<lambda>x. x \<noteq> a) (sorted_list_of_set (fset s)))"
      by auto
  qed simp_all
  then show ?thesis by (simp add: sorted_list_of_fset.rep_eq)
qed

lemma ArgumentArray_eq:
  "ArgumentArray m =
     map (flag m) (otherNames m)
     @ (if HasKey m ''log-level'' then [''--v='' @ Get_arg m ''log-level''] else [])"
  by (simp add: ArgumentArray_def renderFlags_eq filter_sorted_list_of_fset otherNames_def Let_def)

text \<open>
  Claim C8. For every argument map: when the map has the key \<open>log-level\<close>,
  \<open>ArgumentArray\<close> renders it as \<open>--v=<level>\<close> and that flag is the last element of the
  output; every other key is rendered as \<open>--<key>=<value>\<close>, and these flags come first,
  one per key, in byte-wise ascending order of the flag name.
\<close>

theorem ArgumentArray_order:
  "(\<forall>level. fmlookup m ''log-level'' = Some level \<longrightarrow>
        ArgumentArray m \<noteq> [] \<and> last (ArgumentArray m) = ''--v='' @ level
        \<and> butlast (ArgumentArray m) = map (\<lambda>nm. ''--'' @ nm @ ''='' @ Get_arg m nm) (otherNames m))
   \<and> (fmlookup m ''log-level'' = None \<longrightarrow>
        ArgumentArray m = map (\<lambda>nm. ''--'' @ nm @ ''='' @ Get_arg m nm) (otherNames m))
   \<and> sorted (otherNames m) \<and> distinct (otherNames m)
   \<and> set (otherNames m) = fset (fmdom m) - {''log-level''}"
proof -
  have f: "flag m = (\<lambda>nm. ''--'' @ nm @ ''='' @ Get_arg m nm)"
    by (rule ext) (simp add: flag_def)
  have 1: "ArgumentArray m \<noteq> [] \<and> last (ArgumentArray m) = ''--v='' @ level
        \<and> butlast (ArgumentArray m) = map (\<lambda>nm. ''--'' @ nm @ ''='' @ Get_arg m nm) (otherNames m)"
    if "fmlookup m ''log-level'' = Some level" for level
  proof -
    from that have "HasKey m ''log-level''" "Get_arg m ''log-level'' = level"
      by (simp_all add: HasKey_def Get_arg_def fmdomI)
    then show ?thesis by (simp add: ArgumentArray_eq f)
  qed
  have 2: "ArgumentArray m = map (\<lambda>nm. ''--'' @ nm @ ''='' @ Get_arg m nm) (otherNames m)"
    if "fmlookup m ''log-level'' = None"
  proof -
    from that have "\<not> HasKey m ''log-level''" by (simp add: HasKey_def fmdom_notI)
    then show ?thesis by (simp add: ArgumentArray_eq f)
  qed
  have 3: "sorted (otherNames m)" "distinct (otherNames m)"
      "set (otherNames m) = fset (fmdom m) - {''log-level''}"
    by (simp_all add: otherNames_def sorted_list_of_fset.rep_eq)
  from 1 2 3 show ?thesis by blast
qed

theorem ArgumentArray_order_witness:
  "fmlookup example_arguments ''log-level'' = Some ''3''
   \<and> ArgumentArray example_arguments = [''--enable-ipam=true'', ''--enable-proxy=false'', ''--v=3'']
   \<and> last (ArgumentArray example_arguments) = ''--v=3''
   \<and> otherNames example_arguments = [''enable-ipam'', ''enable-proxy'']"
proof -
  have l: "fmlookup example_arguments ''log-level'' = Some ''3''"
    by (simp add: example_arguments_def Set_arg_def)
  have o: "otherNames example_arguments = [''enable-ipam'', ''enable-proxy'']"
    by (simp add: otherNames_def example_arguments_def Set_arg_def NewAgentArgumentMap_def
        sorted_list_of_fset.rep_eq)
  have g: "Get_arg example_arguments ''enable-ipam'' = ''true''"
      "Get_arg example_arguments ''enable-proxy'' = ''false''"
    by (simp_all add: Get_arg_def example_arguments_def Set_arg_def)
  note c = ArgumentArray_order [of example_arguments, THEN conjunct1, rule_format, OF l]
  have n: "ArgumentArray example_arguments \<noteq> []"
    by (rule c [THEN conjunct1])
  have t: "last (ArgumentArray example_arguments) = ''--v=3''"
    using c [THEN conjunct2, THEN conjunct1] by simp
  have b: "butlast (ArgumentArray example_arguments) =
              [''--enable-ipam=true'', ''--enable-proxy=false'']"
    unfolding c [THEN conjunct2, THEN conjunct2] o by (simp add: g)
  have "ArgumentArray example_arguments =
          butlast (ArgumentArray example_arguments) @ [last (ArgumentArray example_arguments)]"
    using n by simp
  then have a: "ArgumentArray example_arguments =
          [''--enable-ipam=true'', ''--enable-proxy=false'', ''--v=3'']"
    unfolding b t by simp
  show ?thesis
    by (intro conjI) (rule l, rule a, rule t, rule o)
qed

subsection \<open>C9: the boolean arguments\<close>

text \<open>
  Claim C9. \<open>IsIPAMEnabled\<close> (respectively \<open>IsProxyEnabled\<close>) returns true if and only if
  the key \<open>enable-ipam\<close> (respectively \<open>enable-proxy\<close>) exists in the argument map and its
  value is the literal string \<open>true\<close>; any other value, such as \<open>TRUE\<close> or the empty
  string, and a missing key yield false.
\<close>

theorem IsEnabled_literal_true:
  "(IsIPAMEnabled m \<longleftrightarrow> fmlookup m ''enable-ipam'' = Some ''true'')
   \<and> (IsProxyEnabled m \<longleftrightarrow> fmlookup m ''enable-proxy'' = Some ''true'')
   \<and> (IsIPAMEnabled (Set_arg m ''enable-ipam'' v) \<longleftrightarrow> v = ''true'')
   \<and> (IsProxyEnabled (Set_arg m ''enable-proxy'' v) \<longleftrightarrow> v = ''true'')
   \<and> \<not> IsIPAMEnabled (Set_arg m ''enable-ipam'' ''TRUE'')
   \<and> \<not> IsIPAMEnabled (Set_arg m ''enable-ipam'' '''')
   \<and> \<not> IsProxyEnabled (Set_arg m ''enable-proxy'' ''TRUE'')
   \<and> \<not> IsProxyEnabled (Set_arg m ''enable-proxy'' '''')
   \<and> \<not> IsIPAMEnabled (Delete_arg m ''enable-ipam'')
   \<and> \<not> IsProxyEnabled (Delete_arg m ''enable-proxy'')"
  by (auto simp: IsIPAMEnabled_def IsProxyEnabled_def Get_arg_def Set_arg_def Delete_arg_def
      split: option.splits)

theorem IsEnabled_literal_true_witness:
  "IsIPAMEnabled example_arguments \<and> \<not> IsProxyEnabled example_arguments
   \<and> fmlookup example_arguments ''enable-ipam'' = Some ''true''
   \<and> fmlookup example_arguments ''enable-proxy'' = Some ''false''
   \<and> \<not> IsProxyEnabled (Set_arg example_arguments ''enable-proxy'' ''TRUE'')"
proof -
  have l: "fmlookup example_arguments ''enable-ipam'' = Some ''true''"
      "fmlookup example_arguments ''enable-proxy'' = Some ''false''"
    by (simp_all add: example_arguments_def Set_arg_def)
  from IsEnabled_literal_true [of example_arguments "''TRUE''"] l
  show ?thesis by simp
qed

end
